theory Spec2Isabelle
  imports Main "HOL-Library.Multiset" "HOL-Library.Sublist"
begin

section \<open>JavaScript values\<close>

text \<open>
  The route handlers and the page read provider and server responses as untyped JSON
  (\<^verbatim>\<open>any\<close>). A value is therefore one of the JavaScript shapes a parsed JSON document
  can have, plus \<^verbatim>\<open>undefined\<close> for a missing property. Numbers are restricted to
  integers; no modelled branch depends on a fractional number. An object is the list of
  its properties, and a key is looked up at its first occurrence.
\<close>

datatype json =
    JUndef
  | JNull
  | JBool bool
  | JNum int
  | JStr string
  | JArr "json list"
  | JObj "(string \<times> json) list"

text \<open>Truthiness as used by \<^verbatim>\<open>if (x)\<close>, \<^verbatim>\<open>!x\<close>, \<^verbatim>\<open>a || b\<close> and \<^verbatim>\<open>a && b\<close>.\<close>

fun truthy :: "json \<Rightarrow> bool" where
  "truthy JUndef = False"
| "truthy JNull = False"
| "truthy (JBool b) = b"
| "truthy (JNum n) = (n \<noteq> 0)"
| "truthy (JStr s) = (s \<noteq> [])"
| "truthy (JArr xs) = True"
| "truthy (JObj kvs) = True"

fun nullish :: "json \<Rightarrow> bool" where
  "nullish JUndef = True"
| "nullish JNull = True"
| "nullish v = False"

text \<open>\<^verbatim>\<open>a || b\<close> and \<^verbatim>\<open>a ?? b\<close>.\<close>

definition js_or :: "json \<Rightarrow> json \<Rightarrow> json" where
  "js_or a b = (if truthy a then a else b)"

definition js_coalesce :: "json \<Rightarrow> json \<Rightarrow> json" where
  "js_coalesce a b = (if nullish a then b else a)"

text \<open>
  \<^verbatim>\<open>v?.k\<close> for the property names the code reads. None of them is a built-in property of
  a string, number, boolean or array, so only an object can answer with something other
  than \<^verbatim>\<open>undefined\<close>.
\<close>

fun get :: "string \<Rightarrow> json \<Rightarrow> json" where
  "get k (JObj kvs) = (case map_of kvs k of None \<Rightarrow> JUndef | Some v \<Rightarrow> v)"
| "get k v = JUndef"

section \<open>The page: runs and the run registry (src/app/page.tsx)\<close>

datatype RunStatus = Idle | Running | Done | Cancelled | Error

record Product =
  product_id :: string
  product_name :: string
  slug :: string
  image_url :: string

record GenImage =
  img_id :: string
  img_prompt :: string
  imageDataUrl :: json

text \<open>
  The \<^verbatim>\<open>Run\<close> type. \<^verbatim>\<open>progress: {done, total}\<close> is flattened into two fields.
  \<^verbatim>\<open>controller\<close> is a reference to an \<^verbatim>\<open>AbortController\<close> object: the objects live in
  a store (a list of their \<^verbatim>\<open>signal.aborted\<close> flags) and a run holds an index into it,
  because the worker closure and the registry entry share the same object.
\<close>

record Run =
  run_id :: string
  name :: string
  startedAt :: int
  modelId :: string
  modelNameDisplay :: string
  productId :: "string option"
  productName :: string
  referenceUrl :: string
  prompts :: "string list"
  status :: RunStatus
  error :: json
  debug :: json
  images :: "GenImage list"
  activeIdx :: nat
  selectedIdx :: "nat set"
  progress_done :: nat
  progress_total :: nat
  speed :: nat
  controller :: "nat option"

text \<open>
  The component state that the run functions read and write. React applies the updater
  functions passed to \<^verbatim>\<open>setRuns\<close> one after the other, each to the result of the one
  before; the model applies every update where the program issues it. The side effects
  written inside an updater (\<^verbatim>\<open>abort()\<close>, \<^verbatim>\<open>setActiveRunId\<close>) are part of the update.
\<close>

record AppState =
  runs :: "Run list"
  activeRunId :: "string option"
  controllers :: "bool list"

text \<open>\<^verbatim>\<open>controller?.abort()\<close>: sets the signal of the referenced controller, if any.\<close>

definition abort :: "nat option \<Rightarrow> bool list \<Rightarrow> bool list" where
  "abort c h = (case c of None \<Rightarrow> h | Some a \<Rightarrow> h[a := True])"

text \<open>
  \<^verbatim>\<open>setRuns((prev) => prev.map((r) => (r.id !== runId ? r : f(r))))\<close>, the shape of every
  per-run update.
\<close>

definition map_run :: "string \<Rightarrow> (Run \<Rightarrow> Run) \<Rightarrow> AppState \<Rightarrow> AppState" where
  "map_run rid f st = st\<lparr>runs := map (\<lambda>r. if run_id r \<noteq> rid then r else f r) (runs st)\<rparr>"

definition toggleSelect :: "string \<Rightarrow> nat \<Rightarrow> AppState \<Rightarrow> AppState" where
  "toggleSelect rid idx st =
     map_run rid (\<lambda>r. r\<lparr>selectedIdx :=
        (if idx \<in> selectedIdx r then selectedIdx r - {idx} else insert idx (selectedIdx r))\<rparr>) st"

text \<open>The click on a thumbnail: \<^verbatim>\<open>r.id === activeRun.id ? { ...r, activeIdx: i } : r\<close>.\<close>

definition selectImage :: "string \<Rightarrow> nat \<Rightarrow> AppState \<Rightarrow> AppState" where
  "selectImage rid i st = map_run rid (\<lambda>r. r\<lparr>activeIdx := i\<rparr>) st"

definition deleteRun :: "string \<Rightarrow> AppState \<Rightarrow> AppState" where
  "deleteRun rid st =
     (let next = filter (\<lambda>r. run_id r \<noteq> rid) (runs st) in
      if activeRunId st = Some rid
      then st\<lparr>runs := next,
              activeRunId := (case next of [] \<Rightarrow> None | r # rs \<Rightarrow> Some (run_id r))\<rparr>
      else st\<lparr>runs := next\<rparr>)"

text \<open>
  \<^verbatim>\<open>cancelRun\<close> aborts the controller of every entry it rewrites (a side effect inside the
  \<^verbatim>\<open>map\<close> callback) and sets the status, whatever the status was.
\<close>

definition cancelRun :: "string \<Rightarrow> AppState \<Rightarrow> AppState" where
  "cancelRun rid st =
     (map_run rid (\<lambda>r. r\<lparr>status := Cancelled\<rparr>) st)
       \<lparr>controllers :=
          foldl (\<lambda>h r. if run_id r \<noteq> rid then h else abort (controller r) h)
                (controllers st) (runs st)\<rparr>"

text \<open>The three callbacks of \<^verbatim>\<open>runGenerator\<close> and its final update.\<close>

definition pushImage :: "string \<Rightarrow> GenImage \<Rightarrow> AppState \<Rightarrow> AppState" where
  "pushImage rid img st =
     map_run rid (\<lambda>r. let imgs = images r @ [img] in
        r\<lparr>images := imgs, activeIdx := (if length imgs = 1 then 0 else activeIdx r)\<rparr>) st"

definition incProgress :: "string \<Rightarrow> AppState \<Rightarrow> AppState" where
  "incProgress rid st = map_run rid (\<lambda>r. r\<lparr>progress_done := progress_done r + 1\<rparr>) st"

definition setError :: "string \<Rightarrow> json \<Rightarrow> json \<Rightarrow> AppState \<Rightarrow> AppState" where
  "setError rid message dbg st =
     map_run rid (\<lambda>r. r\<lparr>status := Error, error := message, debug := js_coalesce dbg JNull\<rparr>) st"

definition markDone :: "string \<Rightarrow> AppState \<Rightarrow> AppState" where
  "markDone rid st = map_run rid (\<lambda>r. if status r = Running then r\<lparr>status := Done\<rparr> else r) st"

subsection \<open>Starting a run\<close>

text \<open>
  What \<^verbatim>\<open>onGenerateNewRun\<close> reads from the component: the product list, the selection,
  the custom URL, the model, the prompt lines (already split, trimmed and filtered by the
  \<^verbatim>\<open>useMemo\<close> above it) and the speed.
\<close>

record Ui =
  products :: "Product list"
  selectedId :: string
  customUrl :: string
  ui_modelId :: string
  ui_modelNameDisplay :: string
  promptLines :: "string list"
  ui_speed :: nat

definition selected :: "Ui \<Rightarrow> Product option" where
  "selected ui = find (\<lambda>p. product_id p = selectedId ui) (products ui)"

definition ui_productName :: "Ui \<Rightarrow> string" where
  "ui_productName ui = (case selected ui of Some p \<Rightarrow> product_name p | None \<Rightarrow> ''Custom'')"

text \<open>\<^verbatim>\<open>selectedId === "custom" ? customUrl : selected?.image_url\<close>; \<open>None\<close> is \<^verbatim>\<open>undefined\<close>.\<close>

definition ui_referenceUrl :: "Ui \<Rightarrow> string option" where
  "ui_referenceUrl ui =
     (if selectedId ui = ''custom'' then Some (customUrl ui)
      else map_option image_url (selected ui))"

text \<open>
  The run name is \<^verbatim>\<open>Run #n\<close>, with \<open>n\<close> one more than the largest number read back from
  the digits of the existing names (those of \<^verbatim>\<open>runs\<close> as the function sees it, before the
  eviction below takes effect).
\<close>

definition is_digit :: "char \<Rightarrow> bool" where
  "is_digit c = (c \<in> set ''0123456789'')"

definition parseInt_digits :: "string \<Rightarrow> nat" where
  "parseInt_digits ds = foldl (\<lambda>n c. 10 * n + (of_char c - 48)) 0 ds"

fun show_nat :: "nat \<Rightarrow> string" where
  "show_nat n =
     (if n < 10 then [char_of (48 + n)]
      else show_nat (n div 10) @ [char_of (48 + n mod 10)])"

declare show_nat.simps [simp del]

definition name_number :: "Run \<Rightarrow> nat" where
  "name_number r =
     (let ds = filter is_digit (name r) in parseInt_digits (if ds = [] then ''0'' else ds))"

definition runOrdinal :: "Run list \<Rightarrow> nat" where
  "runOrdinal rs = (if rs = [] then 0 else fold max (map name_number rs) 0) + 1"

text \<open>
  The first \<^verbatim>\<open>setRuns\<close> of \<^verbatim>\<open>onGenerateNewRun\<close>: with three or more runs registered, the
  first entry of the list sorted by \<^verbatim>\<open>startedAt\<close> (the sort is stable) has its controller
  aborted and every entry with its id is filtered out. Its status is not written.
\<close>

definition evict_oldest :: "AppState \<Rightarrow> AppState" where
  "evict_oldest st =
     (let prev = runs st in
      if length prev < 3 then st
      else (case sort_key startedAt prev of
              [] \<Rightarrow> st
            | oldest # rest \<Rightarrow>
                st\<lparr>runs := filter (\<lambda>r. run_id r \<noteq> run_id oldest) prev,
                   controllers := abort (controller oldest) (controllers st)\<rparr>))"

text \<open>
  \<^verbatim>\<open>onGenerateNewRun\<close>. \<open>uuid\<close> is the result of \<^verbatim>\<open>crypto.randomUUID()\<close> and \<open>now\<close> of
  \<^verbatim>\<open>Date.now()\<close>. The result is the new component state and, when a run was created, the
  \<^verbatim>\<open>newRun\<close> object handed to \<^verbatim>\<open>runGenerator\<close>. \<^verbatim>\<open>new AbortController()\<close> allocates the
  next slot of the store. The function returns nothing to its caller on either path.
\<close>

definition onGenerateNewRun :: "Ui \<Rightarrow> string \<Rightarrow> int \<Rightarrow> AppState \<Rightarrow> AppState \<times> Run option" where
  "onGenerateNewRun ui uuid now st =
     (let ref = (case ui_referenceUrl ui of None \<Rightarrow> [] | Some u \<Rightarrow> u) in
      if ref = [] \<or> promptLines ui = [] then (st, None)
      else
        let st1 = evict_oldest st;
            ac = length (controllers st1);
            newRun = \<lparr>run_id = uuid,
                      name = ''Run #'' @ show_nat (runOrdinal (runs st)),
                      startedAt = now,
                      modelId = ui_modelId ui,
                      modelNameDisplay = ui_modelNameDisplay ui,
                      productId = (if selectedId ui \<noteq> ''custom'' then Some (selectedId ui) else None),
                      productName = ui_productName ui,
                      referenceUrl = ref,
                      prompts = promptLines ui,
                      status = Running,
                      error = JNull,
                      debug = JNull,
                      images = [],
                      activeIdx = 0,
                      selectedIdx = {},
                      progress_done = 0,
                      progress_total = length (promptLines ui),
                      speed = ui_speed ui,
                      controller = Some ac\<rparr>
        in (st1\<lparr>runs := runs st1 @ [newRun],
                 activeRunId := Some uuid,
                 controllers := controllers st1 @ [False]\<rparr>,
            Some newRun))"

subsection \<open>The worker pool of \<^verbatim>\<open>runGenerator\<close>\<close>

text \<open>
  \<^verbatim>\<open>MODEL_LIST\<close> and \<^verbatim>\<open>getModelById\<close> of src/lib/models.ts, with the fields the page
  reads.
\<close>

datatype Provider = nanobanana | seedream

record ModelDef =
  model_id :: string
  label :: string
  version :: string
  provider :: Provider

definition MODEL_LIST :: "ModelDef list" where
  "MODEL_LIST =
     [\<lparr>model_id = ''nanobanana-v1'', label = ''Nano Banana'', version = ''v1'',
       provider = nanobanana\<rparr>,
      \<lparr>model_id = ''seedream-v4-edit'', label = ''Seedream'', version = ''v4-edit'',
       provider = seedream\<rparr>]"

definition getModelById :: "string \<Rightarrow> ModelDef option" where
  "getModelById i = find (\<lambda>m. model_id m = i) MODEL_LIST"

text \<open>
  What the closures of \<^verbatim>\<open>runGenerator\<close> capture: the \<^verbatim>\<open>run\<close> object it was called
  with, the Seedream knobs of the component, and the message texts the JavaScript engine
  gives the \<^verbatim>\<open>TypeError\<close> of \<^verbatim>\<open>getModelById(run.modelId)!.provider\<close> on an unknown
  model and the one of reading a property of \<^verbatim>\<open>null\<close> (the texts are engine-specific, so
  they are parameters).
\<close>

record Closure =
  run :: Run
  sdSize :: string
  sdRes :: string
  sdMax :: int
  sdSeed :: "int option"
  engine_message :: string
  null_read_message :: string

text \<open>
  The body of the request to \<^verbatim>\<open>/api/generate\<close>; \<open>None\<close> when building it throws.
\<close>

definition request_body :: "Closure \<Rightarrow> string \<Rightarrow> json option" where
  "request_body c prompt =
     (let r = run c in
      case getModelById (modelId r) of
        None \<Rightarrow> None
      | Some m \<Rightarrow>
          Some (JObj
            [(''modelId'', JStr (modelId r)),
             (''productId'', (case productId r of None \<Rightarrow> JNull | Some p \<Rightarrow> JStr p)),
             (''customUrl'',
                (case productId r of
                   None \<Rightarrow> JStr (referenceUrl r)
                 | Some p \<Rightarrow> if p \<noteq> [] then JNull else JStr (referenceUrl r))),
             (''prompt'', JStr prompt),
             (''options'',
                (if provider m = seedream
                 then JObj [(''image_size'', JStr (sdSize c)),
                            (''image_resolution'', JStr (sdRes c)),
                            (''max_images'', JNum (sdMax c)),
                            (''seed'', (case sdSeed c of None \<Rightarrow> JNull | Some n \<Rightarrow> JNum n))]
                 else JUndef))]))"

text \<open>
  A worker is either suspended in \<^verbatim>\<open>await fetch(...)\<close> for the index it claimed, or has
  returned. JavaScript runs one continuation at a time, so everything between two
  \<^verbatim>\<open>await\<close>s is one atomic step.

  The pool state is the shared \<^verbatim>\<open>cursor\<close> and the workers. Three logs are kept beside
  it for stating properties: the requests issued (with the claimed index), the indices
  whose outcome was reported through \<^verbatim>\<open>incProgress\<close>, in arrival order, and the indices
  whose request threw. \<open>finished\<close> records that the update after
  \<^verbatim>\<open>await Promise.all(workers)\<close> has run.
\<close>

datatype worker = Awaiting nat | Exited

record Pool =
  cursor :: nat
  workers :: "worker list"
  fetches :: "(nat \<times> json) list"
  reported :: "nat list"
  dropped :: "nat list"
  finished :: bool

record Sys =
  app :: AppState
  pool :: Pool

text \<open>
  The top of \<^verbatim>\<open>while (true)\<close> up to the first \<^verbatim>\<open>await\<close>: read the cursor, return when
  it is past the end, otherwise increment it and issue the request. The result is the new
  system state and the state the calling worker is left in.
\<close>

definition worker_head :: "Closure \<Rightarrow> Sys \<Rightarrow> Sys \<times> worker" where
  "worker_head c s =
     (let p = pool s; idx = cursor p; total = length (prompts (run c)) in
      if idx \<ge> total then (s, Exited)
      else
        let p1 = p\<lparr>cursor := idx + 1\<rparr>; prompt = prompts (run c) ! idx in
        case request_body c prompt of
          None \<Rightarrow>
            (\<lparr>app = setError (run_id (run c))
                      (JStr (if engine_message c \<noteq> [] then engine_message c
                             else ''Request failed'')) JUndef (app s),
              pool = p1\<lparr>dropped := dropped p1 @ [idx]\<rparr>\<rparr>, Exited)
        | Some body \<Rightarrow>
            (s\<lparr>pool := p1\<lparr>fetches := fetches p1 @ [(idx, body)]\<rparr>\<rparr>, Awaiting idx))"

text \<open>
  \<^verbatim>\<open>for (let i = 0; i < parallel; i++) workers.push(worker())\<close>: each call runs its
  worker synchronously up to the first \<^verbatim>\<open>await\<close>.
\<close>

definition spawn_one :: "Closure \<Rightarrow> Sys \<Rightarrow> Sys" where
  "spawn_one c s =
     (case worker_head c s of
        (s1, w) \<Rightarrow> s1\<lparr>pool := (pool s1)\<lparr>workers := workers (pool s1) @ [w]\<rparr>\<rparr>)"

definition parallel :: "Run \<Rightarrow> nat" where
  "parallel r = max 1 (min 3 (speed r))"

definition runGenerator :: "Closure \<Rightarrow> AppState \<Rightarrow> Sys" where
  "runGenerator c st =
     ((spawn_one c) ^^ (parallel (run c)))
       \<lparr>app = st,
        pool = \<lparr>cursor = 0, workers = [], fetches = [], reported = [], dropped = [],
                finished = False\<rparr>\<rparr>"

text \<open>
  How an awaited request comes back: a response with its \<^verbatim>\<open>res.ok\<close> flag and the body
  as \<^verbatim>\<open>res.json().catch(() => ({}))\<close> delivers it, or a rejection with the error's
  \<^verbatim>\<open>name\<close> and \<^verbatim>\<open>message\<close> (an \<^verbatim>\<open>AbortError\<close> when the run's signal was set, any
  other error when the transport failed). Which of them happens, and when, is up to the
  environment.
\<close>

datatype fetch_result = Response bool json | Rejected string string

text \<open>
  Worker \<open>w\<close> resumes with the result of its request and runs to its next \<^verbatim>\<open>await\<close> or
  to its \<^verbatim>\<open>return\<close>. \<open>uuid\<close> is the \<^verbatim>\<open>crypto.randomUUID()\<close> of the pushed image. The
  prompt of the image is the one the worker read when it claimed \<open>idx\<close>; a claimed index
  is always below the batch length. The body is read with \<^verbatim>\<open>json.error\<close>, \<^verbatim>\<open>json.debug\<close>
  and \<^verbatim>\<open>json.imageDataUrl\<close>, without \<^verbatim>\<open>?.\<close>: on a body that is \<^verbatim>\<open>null\<close> the read
  throws a \<^verbatim>\<open>TypeError\<close> inside the \<^verbatim>\<open>try\<close>, before any callback has run, and the
  \<^verbatim>\<open>catch\<close> handles it like a rejected request. An event for a worker that is not waiting
  changes nothing.
\<close>

definition resume :: "Closure \<Rightarrow> nat \<Rightarrow> fetch_result \<Rightarrow> string \<Rightarrow> Sys \<Rightarrow> Sys" where
  "resume c w fr uuid s =
     (if w \<ge> length (workers (pool s)) then s
      else case workers (pool s) ! w of
        Exited \<Rightarrow> s
      | Awaiting idx \<Rightarrow>
         (let rid = run_id (run c); p = pool s in
          case fr of
            Rejected nm msg \<Rightarrow>
              \<lparr>app = setError rid
                       (JStr (if nm = ''AbortError'' then ''Run cancelled''
                              else if msg \<noteq> [] then msg else ''Request failed''))
                       JUndef (app s),
               pool = p\<lparr>workers := (workers p)[w := Exited], dropped := dropped p @ [idx]\<rparr>\<rparr>
          | Response ok js \<Rightarrow>
              if nullish js then
                \<lparr>app = setError rid
                         (JStr (if null_read_message c \<noteq> [] then null_read_message c
                                else ''Request failed''))
                         JUndef (app s),
                 pool = p\<lparr>workers := (workers p)[w := Exited], dropped := dropped p @ [idx]\<rparr>\<rparr>
              else
              (let a1 = (if \<not> ok
                         then incProgress rid
                                (setError rid (js_or (get ''error'' js) (JStr ''Generation failed''))
                                   (js_coalesce (get ''debug'' js) JNull) (app s))
                         else incProgress rid
                                (pushImage rid
                                   \<lparr>img_id = uuid, img_prompt = prompts (run c) ! idx,
                                    imageDataUrl = get ''imageDataUrl'' js\<rparr> (app s)));
                   s1 = \<lparr>app = a1, pool = p\<lparr>reported := reported p @ [idx]\<rparr>\<rparr>
               in case worker_head c s1 of
                    (s2, w') \<Rightarrow> s2\<lparr>pool := (pool s2)\<lparr>workers := (workers (pool s2))[w := w']\<rparr>\<rparr>)))"

text \<open>
  The update after \<^verbatim>\<open>await Promise.all(workers)\<close>: it runs once, when every worker has
  returned, and moves the run to \<^verbatim>\<open>done\<close> only from \<^verbatim>\<open>running\<close>.
\<close>

definition finish :: "Closure \<Rightarrow> Sys \<Rightarrow> Sys" where
  "finish c s =
     (if list_all (\<lambda>w. w = Exited) (workers (pool s)) \<and> \<not> finished (pool s)
      then \<lparr>app = markDone (run_id (run c)) (app s), pool = (pool s)\<lparr>finished := True\<rparr>\<rparr>
      else s)"

text \<open>
  Everything that can happen while the pool of one run is alive: its own workers resume
  and its pool completes; the user cancels, deletes, selects or starts runs or picks an
  image; and the pools of other runs deliver their callbacks (\<open>Other...\<close>, always for
  their own run id).
\<close>

datatype event =
    Resume nat fetch_result string
  | Finish
  | CancelRun string
  | DeleteRun string
  | ToggleSelect string nat
  | SetActive string
  | SelectImage string nat
  | NewRun Ui string int
  | OtherPushImage string GenImage
  | OtherIncProgress string
  | OtherSetError string json json
  | OtherDone string

fun step :: "Closure \<Rightarrow> event \<Rightarrow> Sys \<Rightarrow> Sys" where
  "step c (Resume w fr uuid) s = resume c w fr uuid s"
| "step c Finish s = finish c s"
| "step c (CancelRun rid) s = s\<lparr>app := cancelRun rid (app s)\<rparr>"
| "step c (DeleteRun rid) s = s\<lparr>app := deleteRun rid (app s)\<rparr>"
| "step c (ToggleSelect rid i) s = s\<lparr>app := toggleSelect rid i (app s)\<rparr>"
| "step c (SetActive rid) s = s\<lparr>app := (app s)\<lparr>activeRunId := Some rid\<rparr>\<rparr>"
| "step c (SelectImage rid i) s = s\<lparr>app := selectImage rid i (app s)\<rparr>"
| "step c (NewRun ui uuid now) s = s\<lparr>app := fst (onGenerateNewRun ui uuid now (app s))\<rparr>"
| "step c (OtherPushImage rid img) s = s\<lparr>app := pushImage rid img (app s)\<rparr>"
| "step c (OtherIncProgress rid) s = s\<lparr>app := incProgress rid (app s)\<rparr>"
| "step c (OtherSetError rid m d) s = s\<lparr>app := setError rid m d (app s)\<rparr>"
| "step c (OtherDone rid) s = s\<lparr>app := markDone rid (app s)\<rparr>"

text \<open>
  An event belongs to the environment of run \<open>rid\<close> when it is not a callback of another
  pool addressed to \<open>rid\<close> and does not create a second run with the id \<open>rid\<close> (ids are
  fresh UUIDs).
\<close>

fun foreign :: "string \<Rightarrow> event \<Rightarrow> bool" where
  "foreign rid (NewRun ui uuid now) = (uuid \<noteq> rid)"
| "foreign rid (OtherPushImage r img) = (r \<noteq> rid)"
| "foreign rid (OtherIncProgress r) = (r \<noteq> rid)"
| "foreign rid (OtherSetError r m d) = (r \<noteq> rid)"
| "foreign rid (OtherDone r) = (r \<noteq> rid)"
| "foreign rid e = True"

definition exec :: "Closure \<Rightarrow> event list \<Rightarrow> Sys \<Rightarrow> Sys" where
  "exec c evs s = foldl (\<lambda>s e. step c e s) s evs"

section \<open>The generate route (src/app/api/generate/route.ts)\<close>

subsection \<open>More JavaScript\<close>

text \<open>
  String coercion, as a template literal or a built-in taking a string performs it.
\<close>

definition show_int :: "int \<Rightarrow> string" where
  "show_int i = (if i < 0 then ''-'' @ show_nat (nat (- i)) else show_nat (nat i))"

fun join_comma :: "string list \<Rightarrow> string" where
  "join_comma [] = []"
| "join_comma [s] = s"
| "join_comma (s # t # ss) = s @ '','' @ join_comma (t # ss)"

fun js_toString :: "json \<Rightarrow> string" where
  "js_toString JUndef = ''undefined''"
| "js_toString JNull = ''null''"
| "js_toString (JBool b) = (if b then ''true'' else ''false'')"
| "js_toString (JNum n) = show_int n"
| "js_toString (JStr s) = s"
| "js_toString (JArr xs) = join_comma (map (\<lambda>x. if nullish x then [] else js_toString x) xs)"
| "js_toString (JObj kvs) = ''[object Object]''"

text \<open>\<^verbatim>\<open>v.length\<close> and \<^verbatim>\<open>v[0]\<close> on an arbitrary value that is not null or undefined.\<close>

fun js_length :: "json \<Rightarrow> json" where
  "js_length (JArr xs) = JNum (int (length xs))"
| "js_length (JStr s) = JNum (int (length s))"
| "js_length (JObj kvs) = get ''length'' (JObj kvs)"
| "js_length v = JUndef"

fun js_index0 :: "json \<Rightarrow> json" where
  "js_index0 (JArr xs) = (case xs of [] \<Rightarrow> JUndef | x # r \<Rightarrow> x)"
| "js_index0 (JStr s) = (case s of [] \<Rightarrow> JUndef | c # r \<Rightarrow> JStr [c])"
| "js_index0 (JObj kvs) = get ''0'' (JObj kvs)"
| "js_index0 v = JUndef"

text \<open>
  \<^verbatim>\<open>for (const p of v)\<close>: an array yields its elements, a string its characters; anything
  else is not iterable and the loop throws (\<open>None\<close>).
\<close>

fun js_iter :: "json \<Rightarrow> json list option" where
  "js_iter (JArr xs) = Some xs"
| "js_iter (JStr s) = Some (map (\<lambda>c. JStr [c]) s)"
| "js_iter v = None"

text \<open>\<^verbatim>\<open>s.startsWith(p)\<close>.\<close>

fun starts_with :: "string \<Rightarrow> string \<Rightarrow> bool" where
  "starts_with [] s = True"
| "starts_with (c # p) [] = False"
| "starts_with (c # p) (d # s) = (c = d \<and> starts_with p s)"

text \<open>HTTP \<^verbatim>\<open>res.ok\<close>.\<close>

definition ok :: "nat \<Rightarrow> bool" where
  "ok st = (200 \<le> st \<and> st \<le> 299)"

subsection \<open>The environment of a request\<close>

text \<open>
  A handler result is an HTTP status with a JSON body (\<^verbatim>\<open>NextResponse.json\<close>). Beside it
  the model records the outbound calls the handler made, in order.
\<close>

datatype http = Http nat json

datatype call =
    DbLookup json
  | CreateTask json
  | RecordInfo string
  | FetchImage string
  | GeminiCall string string string

text \<open>The calls that reach a generation provider.\<close>

fun provider_call :: "call \<Rightarrow> bool" where
  "provider_call (CreateTask p) = True"
| "provider_call (RecordInfo u) = True"
| "provider_call (GeminiCall m b t) = True"
| "provider_call c = False"

text \<open>
  What a \<^verbatim>\<open>fetch\<close> gives: a rejection with its message, or a status and the body as
  \<^verbatim>\<open>res.json().catch(() => ({}))\<close> reads it. The image fetch also has a status text, a
  text body, a content type and the bytes (as base64). The product lookup answers with
  \<^verbatim>\<open>{data, error}\<close> or throws.
\<close>

datatype net_result = NetError string | HttpResp nat json

datatype img_result = ImgNetError string | ImgResp nat string string "string option" string

datatype db_result = DbThrow string | DbReply json json

text \<open>
  Everything outside the handler: the environment variables, the product table, the
  providers' answers (the \<open>k\<close>-th status poll may answer differently each time; the Gemini
  request is determined by the mime type, the image data and the prompt text), the time
  each poll iteration takes beyond its 2000 ms sleep, the built-ins that are not modelled
  (\<^verbatim>\<open>JSON.parse\<close>, \<^verbatim>\<open>JSON.stringify\<close>, \<^verbatim>\<open>encodeURIComponent\<close>) and the message text of an
  error raised by the engine itself.
\<close>

record Env =
  KIE_API_BASE :: "string option"
  KIE_KEY :: "string option"
  NB_API_KEY :: "string option"
  db_product :: "json \<Rightarrow> db_result"
  createTask :: "json \<Rightarrow> net_result"
  recordInfo :: "nat \<Rightarrow> string \<Rightarrow> net_result"
  poll_delay :: "nat \<Rightarrow> nat"
  fetch_image :: "string \<Rightarrow> img_result"
  gemini :: "string \<Rightarrow> string \<Rightarrow> string \<Rightarrow> net_result"
  JSON_parse :: "string \<Rightarrow> json option"
  JSON_stringify :: "json \<Rightarrow> string"
  encodeURIComponent :: "string \<Rightarrow> string"
  engine_error :: string

text \<open>\<^verbatim>\<open>process.env.X || default\<close> and \<^verbatim>\<open>!process.env.X\<close>.\<close>

definition KIE_BASE :: "Env \<Rightarrow> string" where
  "KIE_BASE env =
     (case KIE_API_BASE env of None \<Rightarrow> ''https://api.kie.ai''
      | Some b \<Rightarrow> if b = [] then ''https://api.kie.ai'' else b)"

definition missing :: "string option \<Rightarrow> bool" where
  "missing v = (case v of None \<Rightarrow> True | Some s \<Rightarrow> s = [])"

text \<open>
  The request: the result of \<^verbatim>\<open>req.json()\<close> (a rejection message or the parsed body) and
  the state of \<^verbatim>\<open>req.signal\<close>, the request's cancellation signal.
\<close>

record Request =
  body :: "string + json"
  signal_aborted :: bool

text \<open>\<^verbatim>\<open>NextResponse.json({ error: msg }, { status })\<close>.\<close>

definition error_response :: "nat \<Rightarrow> json \<Rightarrow> http" where
  "error_response st msg = Http st (JObj [(''error'', msg)])"

text \<open>The handler's \<^verbatim>\<open>catch\<close>: \<^verbatim>\<open>err?.message || "Unexpected error"\<close> with status 500.\<close>

definition caught :: "string \<Rightarrow> http" where
  "caught m = error_response 500 (JStr (if m = [] then ''Unexpected error'' else m))"

subsection \<open>\<^verbatim>\<open>getReferenceUrl\<close>\<close>

text \<open>
  \<open>pid\<close> and \<open>custom\<close> are the \<^verbatim>\<open>productId\<close> and \<^verbatim>\<open>customUrl\<close> of the request body. The
  result is the thrown message (\<open>Inl\<close>) or the URL, with the calls made.
\<close>

definition getReferenceUrl :: "Env \<Rightarrow> json \<Rightarrow> json \<Rightarrow> (string + json) \<times> call list" where
  "getReferenceUrl env pid custom =
     (if truthy custom then (Inr custom, [])
      else if \<not> truthy pid then (Inl ''Reference image URL required'', [])
      else case db_product env pid of
             DbThrow m \<Rightarrow> (Inl m, [DbLookup pid])
           | DbReply data err \<Rightarrow>
               if truthy err
               then (Inl (''DB error: '' @ js_toString (get ''message'' err)), [DbLookup pid])
               else if \<not> truthy (get ''image_url'' data)
               then (Inl ''No image_url found for product'', [DbLookup pid])
               else (Inr (get ''image_url'' data), [DbLookup pid]))"

subsection \<open>The Seedream branch: create the task, then poll\<close>

definition MAX_MS :: nat where
  "MAX_MS = 180000"

definition seedream_payload :: "json \<Rightarrow> json \<Rightarrow> json \<Rightarrow> json" where
  "seedream_payload prompt options refUrl =
     JObj [(''model'', JStr ''bytedance/seedream-v4-edit''),
           (''callBackUrl'', JStr []),
           (''input'', JObj
              [(''prompt'', prompt),
               (''image_urls'', JArr [refUrl]),
               (''image_size'', js_or (get ''image_size'' options) (JStr ''square'')),
               (''image_resolution'', js_or (get ''image_resolution'' options) (JStr ''1K'')),
               (''max_images'', js_or (get ''max_images'' options) (JNum 1)),
               (''seed'', js_coalesce (get ''seed'' options) JNull)])]"

text \<open>
  After the loop: \<^verbatim>\<open>if (!resultUrl)\<close> the 504 with the last state, otherwise the result.
\<close>

definition after_poll :: "json \<Rightarrow> json \<Rightarrow> http" where
  "after_poll resultUrl lastState =
     (if \<not> truthy resultUrl
      then error_response 504
             (JStr (''Seedream generation timed out (last state: '' @ js_toString lastState @ '')''))
      else Http 200 (JObj [(''imageDataUrl'', resultUrl)]))"

text \<open>
  The loop \<^verbatim>\<open>while (Date.now() - started < MAX_MS)\<close>. \<open>elapsed\<close> is
  \<^verbatim>\<open>Date.now() - started\<close> at the loop test, \<open>k\<close> the number of polls made so far. An
  iteration sleeps 2000 ms and fetches the status, which takes \<open>poll_delay env k\<close> ms more.
  A thrown error (\<open>Inl\<close>) leaves the loop for the handler's \<^verbatim>\<open>catch\<close>.
\<close>

function poll :: "Env \<Rightarrow> json \<Rightarrow> nat \<Rightarrow> nat \<Rightarrow> json \<Rightarrow> (string + http) \<times> call list" where
  "poll env taskId elapsed k lastState =
     (if elapsed < MAX_MS then
        (let u = KIE_BASE env @ ''/api/v1/jobs/recordInfo?taskId=''
                   @ encodeURIComponent env (js_toString taskId) in
         case recordInfo env k u of
           NetError m \<Rightarrow> (Inl m, [RecordInfo u])
         | HttpResp st qJson \<Rightarrow>
             if \<not> ok st \<or> get ''code'' qJson \<noteq> JNum 200
             then (Inr (error_response 502
                          (js_or (js_or (get ''message'' qJson) (get ''msg'' qJson))
                                 (JStr ''Seedream query failed''))), [RecordInfo u])
             else
               (let state = get ''state'' (get ''data'' qJson) in
                if state = JStr ''success'' then
                  (case JSON_parse env
                          (js_toString (js_or (get ''resultJson'' (get ''data'' qJson)) (JStr ''{}''))) of
                     None \<Rightarrow>
                       (Inr (error_response 502 (JStr ''Malformed Seedream resultJson'')),
                        [RecordInfo u])
                   | Some parsed \<Rightarrow>
                       (let urls = js_or (get ''resultUrls'' parsed) (JArr []) in
                        if \<not> truthy (js_length urls)
                        then (Inr (error_response 502 (JStr ''Seedream returned no result URLs'')),
                              [RecordInfo u])
                        else (Inr (after_poll (js_index0 urls) state), [RecordInfo u])))
                else if state = JStr ''fail'' then
                  (Inr (error_response 502
                          (js_or (get ''failMsg'' (get ''data'' qJson))
                                 (JStr ''Seedream reported failure''))), [RecordInfo u])
                else
                  (case poll env taskId (elapsed + 2000 + poll_delay env k) (Suc k) state of
                     (r, cs) \<Rightarrow> (r, RecordInfo u # cs))))
      else (Inr (after_poll JNull lastState), []))"
  by pat_completeness auto
termination
  by (relation "measure (\<lambda>(env, taskId, elapsed, k, lastState). MAX_MS - elapsed)") auto

declare poll.simps [simp del]

definition seedream_branch :: "Env \<Rightarrow> json \<Rightarrow> json \<Rightarrow> json \<Rightarrow> (string + http) \<times> call list" where
  "seedream_branch env prompt options refUrl =
     (if missing (KIE_KEY env) then (Inr (error_response 500 (JStr ''Seedream API key missing'')), [])
      else
        (let payload = seedream_payload prompt options refUrl in
         case createTask env payload of
           NetError m \<Rightarrow> (Inl m, [CreateTask payload])
         | HttpResp st createJson \<Rightarrow>
             if \<not> ok st \<or> get ''code'' createJson \<noteq> JNum 200
             then (Inr (error_response 502
                          (js_or (js_or (get ''message'' createJson) (get ''msg'' createJson))
                                 (JStr ''Seedream createTask failed''))), [CreateTask payload])
             else
               (let taskId = get ''taskId'' (get ''data'' createJson) in
                if \<not> truthy taskId
                then (Inr (error_response 502 (JStr ''Seedream taskId missing'')), [CreateTask payload])
                else (case poll env taskId 0 0 (JStr ''waiting'') of
                        (r, cs) \<Rightarrow> (r, CreateTask payload # cs)))))"

subsection \<open>\<^verbatim>\<open>fetchImageAsBase64\<close>\<close>

text \<open>
  The regular expressions \<^verbatim>\<open>/\.(ext)(\?|$)/i\<close>: somewhere in the URL a dot and the
  extension, in any letter case, followed by a question mark or the end.
\<close>

definition lower_char :: "char \<Rightarrow> char" where
  "lower_char c =
     (let n = (of_char c :: nat) in if 65 \<le> n \<and> n \<le> 90 then char_of (n + 32) else c)"

definition url_has_ext :: "string \<Rightarrow> string \<Rightarrow> bool" where
  "url_has_ext ext u =
     list_ex (\<lambda>t. take (Suc (length ext)) (map lower_char t) = CHR ''.'' # ext \<and>
                   (case drop (Suc (length ext)) t of [] \<Rightarrow> True | c # r \<Rightarrow> c = CHR ''?''))
             (suffixes u)"

text \<open>The result is the thrown message or \<open>(mime, base64)\<close>.\<close>

definition fetchImageAsBase64 :: "Env \<Rightarrow> string \<Rightarrow> string + (string \<times> string)" where
  "fetchImageAsBase64 env u =
     (case fetch_image env u of
        ImgNetError m \<Rightarrow> Inl m
      | ImgResp st statusText txt ctype base64 \<Rightarrow>
          if \<not> ok st
          then Inl (''Failed to fetch image: '' @ show_nat st @ '' '' @ statusText @ '' ''
                    @ [CHR 0xE2, CHR 0x80, CHR 0x94] @ '' '' @ take 200 txt)
          else
            (let mime0 = (case ctype of None \<Rightarrow> ''image/png''
                          | Some t \<Rightarrow> if t = [] then ''image/png'' else t);
                 mime = (if \<not> starts_with ''image/'' mime0
                         then (if url_has_ext ''png'' u then ''image/png''
                               else if url_has_ext ''jpg'' u \<or> url_has_ext ''jpeg'' u then ''image/jpeg''
                               else if url_has_ext ''webp'' u then ''image/webp''
                               else ''image/png'')
                         else mime0)
             in Inr (mime, base64)))"

subsection \<open>\<^verbatim>\<open>extractGeminiImage\<close>\<close>

text \<open>
  What the function returns: an object with some of \<^verbatim>\<open>dataUrl\<close>, \<^verbatim>\<open>url\<close>, \<^verbatim>\<open>reason\<close> and
  \<^verbatim>\<open>debug\<close>; a field that is absent is \<open>JUndef\<close>.
\<close>

record extracted =
  out_dataUrl :: json
  out_url :: json
  out_reason :: json
  out_debug :: json

definition only_dataUrl :: "json \<Rightarrow> extracted" where
  "only_dataUrl d = \<lparr>out_dataUrl = d, out_url = JUndef, out_reason = JUndef, out_debug = JUndef\<rparr>"

definition only_url :: "json \<Rightarrow> extracted" where
  "only_url u = \<lparr>out_dataUrl = JUndef, out_url = u, out_reason = JUndef, out_debug = JUndef\<rparr>"

definition only_reason :: "json \<Rightarrow> extracted" where
  "only_reason r = \<lparr>out_dataUrl = JUndef, out_url = JUndef, out_reason = r, out_debug = JUndef\<rparr>"

text \<open>The three helpers for the alternative spellings of a part's fields.\<close>

definition getInlineData :: "json \<Rightarrow> json" where
  "getInlineData p =
     js_coalesce (get ''data'' (get ''inline_data'' p)) (get ''data'' (get ''inlineData'' p))"

definition getInlineMime :: "json \<Rightarrow> json" where
  "getInlineMime p =
     js_coalesce
       (js_coalesce
          (js_coalesce (get ''mime_type'' (get ''inline_data'' p))
                       (get ''mime_type'' (get ''inlineData'' p)))
          (get ''mimeType'' (get ''inlineData'' p)))
       (JStr ''image/png'')"

definition getFileUri :: "json \<Rightarrow> json" where
  "getFileUri p =
     js_coalesce
       (js_coalesce (get ''file_uri'' (get ''file_data'' p)) (get ''file_uri'' (get ''fileData'' p)))
       (get ''fileUri'' (get ''fileData'' p))"

text \<open>Loop 1, inline base64: the first part whose inline data is truthy.\<close>

fun scan_inline :: "json list \<Rightarrow> extracted option" where
  "scan_inline [] = None"
| "scan_inline (p # ps) =
     (let d = getInlineData p in
      if truthy d
      then Some (only_dataUrl
                   (JStr (''data:'' @ js_toString (getInlineMime p) @ '';base64,'' @ js_toString d)))
      else scan_inline ps)"

text \<open>Loop 2, hosted file uri.\<close>

fun scan_file :: "json list \<Rightarrow> extracted option" where
  "scan_file [] = None"
| "scan_file (p # ps) =
     (let uri = getFileUri p in if truthy uri then Some (only_url uri) else scan_file ps)"

text \<open>
  Loop 3, media arrays. \<^verbatim>\<open>m?.mimeType?.startsWith("image/")\<close> is evaluated only when
  \<^verbatim>\<open>m?.data\<close> is truthy; on a \<^verbatim>\<open>mimeType\<close> that is neither missing nor a string the call
  throws.
\<close>

datatype scan = Found extracted | Threw | NotFound

fun scan_items :: "json list \<Rightarrow> scan" where
  "scan_items [] = NotFound"
| "scan_items (m # ms) =
     (if truthy (get ''data'' m) then
        (case get ''mimeType'' m of
           JStr t \<Rightarrow>
             if starts_with ''image/'' t
             then Found (only_dataUrl
                           (JStr (''data:'' @ t @ '';base64,'' @ js_toString (get ''data'' m))))
             else if truthy (get ''url'' m) then Found (only_url (get ''url'' m))
             else scan_items ms
         | JUndef \<Rightarrow> if truthy (get ''url'' m) then Found (only_url (get ''url'' m)) else scan_items ms
         | JNull \<Rightarrow> if truthy (get ''url'' m) then Found (only_url (get ''url'' m)) else scan_items ms
         | other \<Rightarrow> Threw)
      else if truthy (get ''url'' m) then Found (only_url (get ''url'' m))
      else scan_items ms)"

fun scan_media :: "json list \<Rightarrow> scan" where
  "scan_media [] = NotFound"
| "scan_media (p # ps) =
     (case get ''media'' p of
        JArr ms \<Rightarrow> (case scan_items ms of NotFound \<Rightarrow> scan_media ps | r \<Rightarrow> r)
      | other \<Rightarrow> scan_media ps)"

text \<open>Loop 4, data URIs: \<^verbatim>\<open>du && /^data:image\//.test(du)\<close>.\<close>

fun scan_data_uri :: "json list \<Rightarrow> extracted option" where
  "scan_data_uri [] = None"
| "scan_data_uri (p # ps) =
     (let du = js_or (get ''data_uri'' p) (get ''dataUri'' p) in
      if truthy du \<and> starts_with ''data:image/'' (js_toString du)
      then Some (only_dataUrl du)
      else scan_data_uri ps)"

text \<open>
  \<^verbatim>\<open>anyText.slice(0, 140)\<close> inside the template literal: a string or an array has
  \<^verbatim>\<open>slice\<close>; on any other truthy value the call throws (\<open>None\<close>).
\<close>

fun slice_text :: "nat \<Rightarrow> json \<Rightarrow> string option" where
  "slice_text n (JStr s) = Some (take n s)"
| "slice_text n (JArr xs) = Some (js_toString (JArr (take n xs)))"
| "slice_text n v = None"

text \<open>
  The diagnostic after the four loops. \<^verbatim>\<open>parts.map\<close> exists only on an array; \<open>None\<close> is a
  thrown error.
\<close>

definition no_image_reason :: "Env \<Rightarrow> json \<Rightarrow> json \<Rightarrow> json \<Rightarrow> string option" where
  "no_image_reason env parts finishReason safety =
     (case parts of
        JArr ps \<Rightarrow>
          (let anyText = (case filter truthy (map (get ''text'') ps) of [] \<Rightarrow> JUndef | t # r \<Rightarrow> t);
               safeSummary = (if truthy (js_length safety)
                              then '' safety='' @ JSON_stringify env safety else []);
               start = ''No image parts found. finishReason=''
                         @ js_toString (js_or finishReason (JStr ''n/a'')) @ safeSummary
           in if truthy anyText
              then (case slice_text 140 anyText of
                      None \<Rightarrow> None
                    | Some t \<Rightarrow> Some (start @ '' text='' @ [CHR 0x22] @ t @ ''...'' @ [CHR 0x22]))
              else Some start)
      | other \<Rightarrow> None)"

text \<open>
  \<^verbatim>\<open>extractGeminiImage\<close>: \<open>Inl\<close> is a \<^verbatim>\<open>TypeError\<close> thrown on the way, with the engine's
  message.
\<close>

definition extractGeminiImage :: "Env \<Rightarrow> json \<Rightarrow> string + extracted" where
  "extractGeminiImage env js =
     (let finishReason =
            js_or (js_or (get ''finishReason'' (js_index0 (get ''candidates'' js)))
                         (get ''blockReason'' (get ''promptFeedback'' js)))
                  (JStr []);
          safety = js_or (get ''safetyRatings'' (get ''promptFeedback'' js)) (JArr []);
          candidates = js_or (get ''candidates'' js) (JArr [])
      in case candidates of
           JArr (c0 # cs) \<Rightarrow>
             (let parts = js_or (get ''parts'' (get ''content'' c0)) (JArr []) in
              case js_iter parts of
                None \<Rightarrow> Inl (engine_error env)
              | Some ps \<Rightarrow>
                 (case scan_inline ps of
                    Some r \<Rightarrow> Inr r
                  | None \<Rightarrow>
                     (case scan_file ps of
                        Some r \<Rightarrow> Inr r
                      | None \<Rightarrow>
                         (case scan_media ps of
                            Found r \<Rightarrow> Inr r
                          | Threw \<Rightarrow> Inl (engine_error env)
                          | NotFound \<Rightarrow>
                             (case scan_data_uri ps of
                                Some r \<Rightarrow> Inr r
                              | None \<Rightarrow>
                                 (case no_image_reason env parts finishReason safety of
                                    None \<Rightarrow> Inl (engine_error env)
                                  | Some reason \<Rightarrow>
                                      Inr \<lparr>out_dataUrl = JUndef, out_url = JUndef,
                                           out_reason = JStr reason,
                                           out_debug = JObj
                                             [(''parts'', parts),
                                              (''finishReason'',
                                                 get ''finishReason'' (js_index0 (get ''candidates'' js))),
                                              (''promptFeedback'', get ''promptFeedback'' js)]\<rparr>))))))
         | other \<Rightarrow>
             Inr (only_reason
                    (JStr (''No candidates (finishReason=''
                           @ js_toString (js_or finishReason (JStr ''n/a'')) @ '')''))))"

subsection \<open>The Gemini branch and the handler\<close>

text \<open>
  The handler from the provider's answer on (lines 277 to 294): \<open>st\<close> and \<open>nbJson\<close> are
  the status and the body of the Gemini response. \<^verbatim>\<open>NextResponse.json\<close> refuses a status
  outside 200 to 599 with a \<^verbatim>\<open>RangeError\<close> and a body on status 304 with a
  \<^verbatim>\<open>TypeError\<close>, which the handler's \<^verbatim>\<open>catch\<close> receives.
\<close>

definition gemini_finish :: "Env \<Rightarrow> nat \<Rightarrow> json \<Rightarrow> http" where
  "gemini_finish env st nbJson =
     (if \<not> ok st then
        (let msg = js_or (get ''message'' (get ''error'' nbJson))
                         (JStr (''Gemini request failed ('' @ show_nat st @ '')''));
             st' = (if st = 0 then 502 else st)
         in if 200 \<le> st' \<and> st' \<le> 599 \<and> st' \<noteq> 304 then error_response st' msg
            else caught (engine_error env))
      else
        (case extractGeminiImage env nbJson of
           Inl m \<Rightarrow> caught m
         | Inr out \<Rightarrow>
             if truthy (out_dataUrl out) then Http 200 (JObj [(''imageDataUrl'', out_dataUrl out)])
             else if truthy (out_url out) then Http 200 (JObj [(''imageDataUrl'', out_url out)])
             else Http 502 (JObj [(''error'', js_or (out_reason out) (JStr ''Gemini returned no image data'')),
                                  (''debug'', js_coalesce (out_debug out) JNull)])))"

definition gemini_branch :: "Env \<Rightarrow> json \<Rightarrow> json \<Rightarrow> http \<times> call list" where
  "gemini_branch env prompt refUrl =
     (if missing (NB_API_KEY env) then (error_response 500 (JStr ''Nano Banana API key missing''), [])
      else
        (let u = js_toString refUrl in
         case fetchImageAsBase64 env u of
           Inl m \<Rightarrow> (caught m, [FetchImage u])
         | Inr (mime, base64) \<Rightarrow>
             if \<not> starts_with ''image/'' mime
             then (error_response 400 (JStr (''Reference URL is not an image (mime='' @ mime @ '')'')),
                   [FetchImage u])
             else
               (let txt = js_toString prompt in
                case gemini env mime base64 txt of
                  NetError m \<Rightarrow> (caught m, [FetchImage u, GeminiCall mime base64 txt])
                | HttpResp st nbJson \<Rightarrow>
                    (gemini_finish env st nbJson, [FetchImage u, GeminiCall mime base64 txt]))))"

text \<open>
  \<^verbatim>\<open>POST\<close>. Destructuring a \<^verbatim>\<open>null\<close> body throws, and so does \<^verbatim>\<open>modelId.startsWith\<close> on
  a truthy \<^verbatim>\<open>modelId\<close> that is not a string. \<^verbatim>\<open>req.signal\<close> is never read.
\<close>

definition POST :: "Env \<Rightarrow> Request \<Rightarrow> http \<times> call list" where
  "POST env req =
     (case body req of
        Inl m \<Rightarrow> (caught m, [])
      | Inr b \<Rightarrow>
          if nullish b then (caught (engine_error env), [])
          else if \<not> truthy (get ''prompt'' b) \<or> \<not> truthy (get ''modelId'' b)
          then (error_response 400 (JStr ''Missing modelId or prompt''), [])
          else
            (case getReferenceUrl env (get ''productId'' b) (get ''customUrl'' b) of
               (Inl m, cs) \<Rightarrow> (caught m, cs)
             | (Inr refUrl, cs) \<Rightarrow>
                 (case get ''modelId'' b of
                    JStr mid \<Rightarrow>
                      if starts_with ''seedream'' mid
                      then (case seedream_branch env (get ''prompt'' b) (get ''options'' b) refUrl of
                              (Inl m, ds) \<Rightarrow> (caught m, cs @ ds)
                            | (Inr r, ds) \<Rightarrow> (r, cs @ ds))
                      else (case gemini_branch env (get ''prompt'' b) refUrl of
                              (r, ds) \<Rightarrow> (r, cs @ ds))
                  | other \<Rightarrow> (caught (engine_error env), cs))))"

section \<open>The Seedream branch of the second route variant (src/unnamed/part_002)\<close>

text \<open>
  Lines 166 to 234 of the older variant of the route, translated on their own: the payload,
  the create call, the poll loop and the code after it.
\<close>

function poll_B :: "Env \<Rightarrow> json \<Rightarrow> nat \<Rightarrow> nat \<Rightarrow> json \<Rightarrow> (string + http) \<times> call list" where
  "poll_B env taskId elapsed k lastState =
     (if elapsed < 180000 then
        (let u = KIE_BASE env @ ''/api/v1/jobs/recordInfo?taskId=''
                   @ encodeURIComponent env (js_toString taskId) in
         case recordInfo env k u of
           NetError m \<Rightarrow> (Inl m, [RecordInfo u])
         | HttpResp st qJson \<Rightarrow>
             if \<not> ok st \<or> get ''code'' qJson \<noteq> JNum 200
             then (Inr (Http 502 (JObj [(''error'',
                          js_or (js_or (get ''message'' qJson) (get ''msg'' qJson))
                                (JStr ''Seedream query failed''))])), [RecordInfo u])
             else
               (let state = get ''state'' (get ''data'' qJson) in
                if state = JStr ''success'' then
                  (case JSON_parse env
                          (js_toString (js_or (get ''resultJson'' (get ''data'' qJson)) (JStr ''{}''))) of
                     None \<Rightarrow>
                       (Inr (Http 502 (JObj [(''error'', JStr ''Malformed Seedream resultJson'')])),
                        [RecordInfo u])
                   | Some parsed \<Rightarrow>
                       (let urls = js_or (get ''resultUrls'' parsed) (JArr []) in
                        if \<not> truthy (js_length urls)
                        then (Inr (Http 502 (JObj [(''error'', JStr ''Seedream returned no result URLs'')])),
                              [RecordInfo u])
                        else
                          (let resultUrl = js_index0 urls in
                           if \<not> truthy resultUrl
                           then (Inr (Http 504 (JObj [(''error'',
                                   JStr (''Seedream generation timed out (last state: ''
                                         @ js_toString state @ '')''))])), [RecordInfo u])
                           else (Inr (Http 200 (JObj [(''imageDataUrl'', resultUrl)])),
                                 [RecordInfo u]))))
                else if state = JStr ''fail'' then
                  (Inr (Http 502 (JObj [(''error'',
                          js_or (get ''failMsg'' (get ''data'' qJson))
                                (JStr ''Seedream reported failure''))])), [RecordInfo u])
                else
                  (case poll_B env taskId (elapsed + 2000 + poll_delay env k) (Suc k) state of
                     (r, cs) \<Rightarrow> (r, RecordInfo u # cs))))
      else (Inr (Http 504 (JObj [(''error'',
                  JStr (''Seedream generation timed out (last state: ''
                        @ js_toString lastState @ '')''))])), []))"
  by pat_completeness auto
termination
  by (relation "measure (\<lambda>(env, taskId, elapsed, k, lastState). 180000 - elapsed)") auto

declare poll_B.simps [simp del]

definition seedream_branch_B :: "Env \<Rightarrow> json \<Rightarrow> json \<Rightarrow> json \<Rightarrow> (string + http) \<times> call list" where
  "seedream_branch_B env prompt options refUrl =
     (if missing (KIE_KEY env)
      then (Inr (Http 500 (JObj [(''error'', JStr ''Seedream API key missing'')])), [])
      else
        (let payload =
               JObj [(''model'', JStr ''bytedance/seedream-v4-edit''),
                     (''callBackUrl'', JStr []),
                     (''input'', JObj
                        [(''prompt'', prompt),
                         (''image_urls'', JArr [refUrl]),
                         (''image_size'', js_or (get ''image_size'' options) (JStr ''square'')),
                         (''image_resolution'', js_or (get ''image_resolution'' options) (JStr ''1K'')),
                         (''max_images'', js_or (get ''max_images'' options) (JNum 1)),
                         (''seed'', js_coalesce (get ''seed'' options) JNull)])]
         in
         case createTask env payload of
           NetError m \<Rightarrow> (Inl m, [CreateTask payload])
         | HttpResp st createJson \<Rightarrow>
             if \<not> ok st \<or> get ''code'' createJson \<noteq> JNum 200
             then (Inr (Http 502 (JObj [(''error'',
                          js_or (js_or (get ''message'' createJson) (get ''msg'' createJson))
                                (JStr ''Seedream createTask failed''))])), [CreateTask payload])
             else
               (let taskId = get ''taskId'' (get ''data'' createJson) in
                if \<not> truthy taskId
                then (Inr (Http 502 (JObj [(''error'', JStr ''Seedream taskId missing'')])),
                      [CreateTask payload])
                else (case poll_B env taskId 0 0 (JStr ''waiting'') of
                        (r, cs) \<Rightarrow> (r, CreateTask payload # cs)))))"

section \<open>Invariants of a running pool\<close>

text \<open>The registry entries that carry a given run id.\<close>

definition tracked :: "string \<Rightarrow> AppState \<Rightarrow> Run list" where
  "tracked rid st = filter (\<lambda>r. run_id r = rid) (runs st)"

text \<open>The indices whose requests are in flight.\<close>

definition awaiting :: "worker list \<Rightarrow> nat list" where
  "awaiting ws = concat (map (\<lambda>w. case w of Awaiting i \<Rightarrow> [i] | Exited \<Rightarrow> []) ws)"

text \<open>
  The pool invariant: the cursor stays within the batch; every index below the cursor is
  exactly one of in flight, reported or dropped; a worker that has returned has either
  seen the cursor at the end or dropped a request; the final update only runs when every
  worker has returned; requests are issued at strictly increasing indices, all below the
  cursor, every index in flight has its request, and as long as nothing was dropped the
  requests issued are exactly the indices below the cursor.
\<close>

definition pool_inv :: "Closure \<Rightarrow> Pool \<Rightarrow> bool" where
  "pool_inv c p \<longleftrightarrow>
     cursor p \<le> length (prompts (run c)) \<and>
     mset (awaiting (workers p)) + mset (reported p) + mset (dropped p) = mset [0..<cursor p] \<and>
     (Exited \<in> set (workers p) \<longrightarrow> cursor p = length (prompts (run c)) \<or> dropped p \<noteq> []) \<and>
     (finished p \<longrightarrow> list_all (\<lambda>w. w = Exited) (workers p)) \<and>
     sorted_wrt (<) (map fst (fetches p)) \<and>
     (\<forall>i\<in>set (map fst (fetches p)). i < cursor p) \<and>
     (\<forall>i\<in>set (awaiting (workers p)). i \<in> set (map fst (fetches p))) \<and>
     (dropped p = [] \<longrightarrow> map fst (fetches p) = [0..<cursor p])"

text \<open>
  What holds of a registry entry of the pool's own run: its total is the batch length, its
  progress counts the reported outcomes, it holds no more images than outcomes; while it
  is \<open>Running\<close> or \<open>Done\<close> nothing was dropped and its images are those of the reported
  indices, in arrival order; it is \<open>Done\<close> only after the final update with the cursor
  at the end, and \<open>Running\<close> only before it.
\<close>

definition run_inv :: "Closure \<Rightarrow> Pool \<Rightarrow> Run \<Rightarrow> bool" where
  "run_inv c p x \<longleftrightarrow>
     progress_total x = length (prompts (run c)) \<and>
     progress_done x = length (reported p) \<and>
     length (images x) \<le> length (reported p) \<and>
     (status x = Running \<or> status x = Done \<longrightarrow>
        dropped p = [] \<and>
        map img_prompt (images x) = map (\<lambda>i. prompts (run c) ! i) (reported p)) \<and>
     (status x = Done \<longrightarrow> finished p \<and> cursor p = length (prompts (run c))) \<and>
     (status x = Running \<longrightarrow> \<not> finished p)"

definition core_inv :: "Closure \<Rightarrow> Sys \<Rightarrow> bool" where
  "core_inv c s \<longleftrightarrow>
     pool_inv c (pool s) \<and> list_all (run_inv c (pool s)) (tracked (run_id (run c)) (app s))"

text \<open>A later state of a run keeps the images and the progress of an earlier one.\<close>

definition retains :: "Run list \<Rightarrow> Run list \<Rightarrow> bool" where
  "retains xs ys \<longleftrightarrow>
     (\<forall>y\<in>set ys. \<exists>x\<in>set xs. prefix (images x) (images y) \<and> progress_done x \<le> progress_done y)"

definition terminal :: "Run \<Rightarrow> bool" where
  "terminal x \<longleftrightarrow> status x = Done \<or> status x = Cancelled \<or> status x = Error"

text \<open>The logs of a pool only grow, and a worker that has returned stays returned.\<close>

definition pool_grows :: "Pool \<Rightarrow> Pool \<Rightarrow> bool" where
  "pool_grows p q \<longleftrightarrow>
     prefix (dropped p) (dropped q) \<and> prefix (fetches p) (fetches q) \<and>
     prefix (reported p) (reported q) \<and> cursor p \<le> cursor q \<and>
     length (workers q) = length (workers p) \<and>
     (\<forall>w<length (workers p). workers p ! w = Exited \<longrightarrow> workers q ! w = Exited)"

section \<open>Observations on a handler result\<close>

text \<open>A status fetch of the poll loop among the calls.\<close>

fun is_status_fetch :: "call \<Rightarrow> bool" where
  "is_status_fetch (RecordInfo u) = True"
| "is_status_fetch c = False"

text \<open>
  What the page makes of a result: \<^verbatim>\<open>res.ok\<close>, the artifact \<^verbatim>\<open>json.imageDataUrl\<close> and
  the message \<^verbatim>\<open>json.error\<close>.
\<close>

fun success :: "http \<Rightarrow> bool" where
  "success (Http st b) = ok st"


fun failure_message :: "http \<Rightarrow> json" where
  "failure_message (Http st b) = get ''error'' b"

fun http_status :: "http \<Rightarrow> nat" where
  "http_status (Http st b) = st"












section \<open>Concrete runs\<close>

text \<open>
  A batch of three prompts against a custom reference URL at speed 1, started on an empty
  registry: the state after \<^verbatim>\<open>onGenerateNewRun\<close>, the run object it creates, and the
  closure of its \<^verbatim>\<open>runGenerator\<close>.
\<close>

definition ex_ui :: Ui where
  "ex_ui = \<lparr>products = [], selectedId = ''custom'', customUrl = ''https://cdn.example/ref.png'',
            ui_modelId = ''nanobanana-v1'', ui_modelNameDisplay = ''Nano Banana-v1'',
            promptLines = [''a'', ''b'', ''c''], ui_speed = 1\<rparr>"

definition ex_st0 :: AppState where
  "ex_st0 = \<lparr>runs = [], activeRunId = None, controllers = []\<rparr>"

definition ex_run :: Run where
  "ex_run = \<lparr>run_id = ''u1'', name = ''Run #1'', startedAt = 100,
             modelId = ''nanobanana-v1'', modelNameDisplay = ''Nano Banana-v1'',
             productId = None, productName = ''Custom'',
             referenceUrl = ''https://cdn.example/ref.png'', prompts = [''a'', ''b'', ''c''],
             status = Running, error = JNull, debug = JNull, images = [],
             activeIdx = 0, selectedIdx = {}, progress_done = 0,
             progress_total = 3, speed = 1, controller = Some 0\<rparr>"

definition ex_st1 :: AppState where
  "ex_st1 = \<lparr>runs = [ex_run], activeRunId = Some ''u1'', controllers = [False]\<rparr>"

definition ex_c :: Closure where
  "ex_c = \<lparr>run = ex_run, sdSize = ''square'', sdRes = ''1K'', sdMax = 1, sdSeed = None,
           engine_message = ''Cannot read properties of undefined'',
           null_read_message = ''Cannot read properties of null''\<rparr>"

definition ex_ok :: "string \<Rightarrow> fetch_result" where
  "ex_ok url = Response True (JObj [(''imageDataUrl'', JStr url)])"

text \<open>All three requests succeed, then the pool completes.\<close>

definition ex_evs_ok :: "event list" where
  "ex_evs_ok = [Resume 0 (ex_ok ''data:a'') ''i1'', Resume 0 (ex_ok ''data:b'') ''i2'',
                Resume 0 (ex_ok ''data:c'') ''i3'', Finish]"

definition ex_done :: Run where
  "ex_done = ex_run\<lparr>status := Done, progress_done := 3,
                images := [\<lparr>img_id = ''i1'', img_prompt = ''a'', imageDataUrl = JStr ''data:a''\<rparr>,
                           \<lparr>img_id = ''i2'', img_prompt = ''b'', imageDataUrl = JStr ''data:b''\<rparr>,
                           \<lparr>img_id = ''i3'', img_prompt = ''c'', imageDataUrl = JStr ''data:c''\<rparr>]\<rparr>"

text \<open>The first request succeeds, the second one throws, then the pool completes.\<close>

definition ex_evs_first :: "event list" where
  "ex_evs_first = [Resume 0 (ex_ok ''data:a'') ''i1'']"

definition ex_evs_after :: "event list" where
  "ex_evs_after = [Finish, CancelRun ''u1'']"

text \<open>
  A full registry: three runs created at times 30, 10 and 20, each with its own
  controller, and a fourth submission.
\<close>

definition ex_old :: "string \<Rightarrow> int \<Rightarrow> nat \<Rightarrow> Run" where
  "ex_old i t k = ex_run\<lparr>run_id := i, startedAt := t, controller := Some k\<rparr>"

definition ex_full :: AppState where
  "ex_full = \<lparr>runs = [ex_old ''r1'' 30 0, ex_old ''r2'' 10 1, ex_old ''r3'' 20 2],
              activeRunId = Some ''r2'', controllers = [False, False, False]\<rparr>"

text \<open>A provider failure as the generate route reports it.\<close>

definition ex_fail :: fetch_result where
  "ex_fail = Response False (JObj [(''error'', JStr ''Gemini request failed (500)'')])"

text \<open>
  A provider environment: the keys are set, the product table is empty, task creation
  answers with task \<^verbatim>\<open>t1\<close>, the first status poll reports \<^verbatim>\<open>success\<close> with one result
  URL, and Gemini answers with a single text part.
\<close>

definition ex_env :: Env where
  "ex_env =
     \<lparr>KIE_API_BASE = None, KIE_KEY = Some ''kie-key'', NB_API_KEY = Some ''nb-key'',
      db_product = (\<lambda>p. DbReply JNull (JObj [(''message'', JStr ''no rows returned'')])),
      createTask = (\<lambda>p. HttpResp 200 (JObj [(''code'', JNum 200),
                                               (''data'', JObj [(''taskId'', JStr ''t1'')])])),
      recordInfo = (\<lambda>k u. HttpResp 200 (JObj [(''code'', JNum 200),
                       (''data'', JObj [(''state'', JStr ''success''),
                                        (''resultJson'', JStr ''{...}'')])])),
      poll_delay = (\<lambda>k. 150),
      fetch_image = (\<lambda>u. ImgResp 200 ''OK'' [] (Some ''image/png'') ''aGVsbG8=''),
      gemini = (\<lambda>m b t. HttpResp 200 (JObj [(''candidates'', JArr
                  [JObj [(''content'', JObj [(''parts'', JArr [JObj [(''text'', JStr ''Sorry'')]])]),
                         (''finishReason'', JStr ''STOP'')]])])),
      JSON_parse = (\<lambda>s. Some (JObj [(''resultUrls'', JArr [JStr ''https://out.example/1.png''])])),
      JSON_stringify = (\<lambda>v. ''[]''),
      encodeURIComponent = (\<lambda>s. s),
      engine_error = ''x is not a function''\<rparr>"

text \<open>The same provider, but every status poll reports the state \<^verbatim>\<open>generating\<close>.\<close>

definition ex_env_pending :: Env where
  "ex_env_pending =
     ex_env\<lparr>recordInfo := (\<lambda>k u. HttpResp 200 (JObj [(''code'', JNum 200),
                       (''data'', JObj [(''state'', JStr ''generating'')])])),
            poll_delay := (\<lambda>k. 58000)\<rparr>"

text \<open>A Seedream request whose cancellation signal is already set, and the same one unset.\<close>

definition ex_body :: json where
  "ex_body = JObj [(''modelId'', JStr ''seedream-v4-edit''), (''productId'', JNull),
                   (''customUrl'', JStr ''https://cdn.example/ref.png''),
                   (''prompt'', JStr ''a'')]"

definition ex_req_aborted :: Request where
  "ex_req_aborted = \<lparr>body = Inr ex_body, signal_aborted = True\<rparr>"

text \<open>
  A selected product whose image URL the page knows, while the product table of the
  server no longer has the row; and the request body the worker builds for its prompt.
\<close>

definition ex_ui_product :: Ui where
  "ex_ui_product =
     ex_ui\<lparr>products := [\<lparr>product_id = ''p1'', product_name = ''Lamp'', slug = ''lamp'',
                           image_url = ''https://cdn.example/lamp.png''\<rparr>],
           selectedId := ''p1'', customUrl := [], promptLines := [''a'']\<rparr>"

definition ex_body_product :: json where
  "ex_body_product =
     JObj [(''modelId'', JStr ''nanobanana-v1''), (''productId'', JStr ''p1''),
           (''customUrl'', JNull), (''prompt'', JStr ''a''), (''options'', JUndef)]"

definition ex_c_product :: Closure where
  "ex_c_product =
     ex_c\<lparr>run := ex_run\<lparr>prompts := [''a''], productId := Some ''p1'', productName := ''Lamp'',
                       referenceUrl := ''https://cdn.example/lamp.png'', progress_total := 1\<rparr>\<rparr>"




section \<open>Properties of the registry updates\<close>

lemma filter_map_run:
  assumes "\<And>r. run_id (f r) = run_id r"
  shows "filter (\<lambda>r. run_id r = rid) (map (\<lambda>r. if run_id r \<noteq> rid' then r else f r) rs) =
         (if rid' = rid then map f (filter (\<lambda>r. run_id r = rid) rs)
          else filter (\<lambda>r. run_id r = rid) rs)"
  using assms by (induction rs) auto

lemma tracked_map_run:
  assumes "\<And>r. run_id (f r) = run_id r"
  shows "tracked rid (map_run rid' f st) = (if rid' = rid then map f (tracked rid st) else tracked rid st)"
  using filter_map_run[OF assms, of rid rid' "runs st"] by (simp add: tracked_def map_run_def)

lemma tracked_controllers [simp]: "tracked rid (st\<lparr>controllers := h\<rparr>) = tracked rid st"
  by (simp add: tracked_def)

lemma tracked_activeRunId [simp]: "tracked rid (st\<lparr>activeRunId := a\<rparr>) = tracked rid st"
  by (simp add: tracked_def)

lemma tracked_simps:
  "tracked rid (setError rid' m d st) = (if rid' = rid then map (\<lambda>r. r\<lparr>status := Error, error := m, debug := js_coalesce d JNull\<rparr>) (tracked rid st) else tracked rid st)"
  "tracked rid (incProgress rid' st) = (if rid' = rid then map (\<lambda>r. r\<lparr>progress_done := progress_done r + 1\<rparr>) (tracked rid st) else tracked rid st)"
  "tracked rid (pushImage rid' img st) = (if rid' = rid then map (\<lambda>r. let imgs = images r @ [img] in
        r\<lparr>images := imgs, activeIdx := (if length imgs = 1 then 0 else activeIdx r)\<rparr>) (tracked rid st) else tracked rid st)"
  "tracked rid (markDone rid' st) = (if rid' = rid then map (\<lambda>r. if status r = Running then r\<lparr>status := Done\<rparr> else r) (tracked rid st) else tracked rid st)"
  "tracked rid (toggleSelect rid' i st) = (if rid' = rid then map (\<lambda>r. r\<lparr>selectedIdx :=
        (if i \<in> selectedIdx r then selectedIdx r - {i} else insert i (selectedIdx r))\<rparr>) (tracked rid st) else tracked rid st)"
  "tracked rid (selectImage rid' i st) = (if rid' = rid then map (\<lambda>r. r\<lparr>activeIdx := i\<rparr>) (tracked rid st) else tracked rid st)"
  unfolding setError_def incProgress_def pushImage_def markDone_def toggleSelect_def selectImage_def
  by (subst tracked_map_run; simp add: Let_def tracked_def)+

lemma tracked_cancelRun:
  "tracked rid (cancelRun rid' st) = (if rid' = rid then map (\<lambda>r. r\<lparr>status := Cancelled\<rparr>) (tracked rid st) else tracked rid st)"
  by (simp add: cancelRun_def tracked_map_run)

lemma tracked_deleteRun: "tracked rid (deleteRun rid' st) = (if rid' = rid then [] else tracked rid st)"
  by (auto simp: tracked_def deleteRun_def Let_def intro!: filter_cong)

lemma tracked_evict: "tracked rid (evict_oldest st) = tracked rid st \<or> tracked rid (evict_oldest st) = []"
  by (auto simp: tracked_def evict_oldest_def Let_def filter_empty_conv split: list.splits intro!: filter_cong)

lemma tracked_newrun:
  "uuid \<noteq> rid \<Longrightarrow> tracked rid (fst (onGenerateNewRun ui uuid now st)) = tracked rid st \<or>
     tracked rid (fst (onGenerateNewRun ui uuid now st)) = []"
  using tracked_evict[of rid st]
  by (auto simp: onGenerateNewRun_def Let_def tracked_def)


lemma awaiting_update:
  "w < length ws \<Longrightarrow>
   mset (awaiting (ws[w := x])) + mset (awaiting [ws ! w]) = mset (awaiting ws) + mset (awaiting [x])"
proof (induction ws arbitrary: w)
  case Nil
  then show ?case by simp
next
  case (Cons a ws)
  show ?case
  proof (cases w)
    case 0
    then show ?thesis by (simp add: awaiting_def)
  next
    case (Suc v)
    with Cons.prems have "v < length ws" by simp
    from Cons.IH[OF this] Suc show ?thesis by (simp add: awaiting_def)
  qed
qed

lemma awaiting_update_exit:
  "w < length ws \<Longrightarrow> ws ! w = Awaiting i \<Longrightarrow>
   mset (awaiting (ws[w := Exited])) + {#i#} = mset (awaiting ws)"
  using awaiting_update[of w ws Exited] by (simp add: awaiting_def)

lemma awaiting_update_next:
  "w < length ws \<Longrightarrow> ws ! w = Awaiting i \<Longrightarrow>
   mset (awaiting (ws[w := Awaiting j])) + {#i#} = mset (awaiting ws) + {#j#}"
  using awaiting_update[of w ws "Awaiting j"] by (simp add: awaiting_def)

lemma awaiting_single [simp]: "awaiting [Exited] = []" "awaiting [Awaiting j] = [j]"
  by (simp_all add: awaiting_def)

lemma awaiting_update_set:
  "i \<in> set (awaiting (ws[w := x])) \<Longrightarrow> i \<in> set (awaiting ws) \<or> i \<in> set (awaiting [x])"
  using set_update_subset_insert[of ws w x] by (auto simp: awaiting_def)

lemma awaiting_all_exited:
  "list_all (\<lambda>w. w = Exited) ws \<Longrightarrow> awaiting ws = []"
  by (induction ws) (auto simp: awaiting_def)

lemma awaiting_append [simp]: "awaiting (ws @ [x]) = awaiting ws @ awaiting [x]"
  by (simp add: awaiting_def)

lemma worker_head_cases:
  assumes "worker_head c s = (s', x)"
  obtains
    (stop) "cursor (pool s) \<ge> length (prompts (run c))" "s' = s" "x = Exited"
  | (throw) m where "cursor (pool s) < length (prompts (run c))" "x = Exited"
      "pool s' = (pool s)\<lparr>cursor := cursor (pool s) + 1, dropped := dropped (pool s) @ [cursor (pool s)]\<rparr>"
      "app s' = setError (run_id (run c)) m JUndef (app s)"
  | (issue) body where "cursor (pool s) < length (prompts (run c))" "x = Awaiting (cursor (pool s))"
      "pool s' = (pool s)\<lparr>cursor := cursor (pool s) + 1, fetches := fetches (pool s) @ [(cursor (pool s), body)]\<rparr>"
      "app s' = app s"
  using assms by (fastforce simp: worker_head_def Let_def split: if_splits option.splits)


lemma upt_snoc: "[0..<n] @ [n] = [0..<Suc n]"
  by simp

lemma mset_upt_Suc: "mset [0..<Suc n] = mset [0..<n] + {#n#}"
  by simp

lemma exited_update: "Exited \<in> set (ws[w := x]) \<Longrightarrow> x = Exited \<or> Exited \<in> set ws"
  using set_update_subset_insert[of ws w x] by auto

lemma list_all_update: "list_all P ws \<Longrightarrow> P x \<Longrightarrow> list_all P (ws[w := x])"
  using set_update_subset_insert[of ws w x] by (auto simp: list_all_iff)

lemma rejected_inv:
  assumes inv: "core_inv c s" and w: "w < length (workers (pool s))"
    and aw: "workers (pool s) ! w = Awaiting idx"
  shows "core_inv c \<lparr>app = setError (run_id (run c)) m JUndef (app s),
           pool = (pool s)\<lparr>workers := (workers (pool s))[w := Exited],
                          dropped := dropped (pool s) @ [idx]\<rparr>\<rparr>"
proof -
  from inv have p: "pool_inv c (pool s)"
    and r: "list_all (run_inv c (pool s)) (tracked (run_id (run c)) (app s))"
    by (simp_all add: core_inv_def)
  have cnt: "mset (awaiting ((workers (pool s))[w := Exited])) + {#idx#} = mset (awaiting (workers (pool s)))"
    using awaiting_update_exit[OF w aw] .
  have "pool_inv c ((pool s)\<lparr>workers := (workers (pool s))[w := Exited],
                          dropped := dropped (pool s) @ [idx]\<rparr>)"
    using p cnt[symmetric] by (auto simp: pool_inv_def list_all_update dest: awaiting_update_set)
  moreover have "list_all (run_inv c ((pool s)\<lparr>workers := (workers (pool s))[w := Exited],
                          dropped := dropped (pool s) @ [idx]\<rparr>))
        (tracked (run_id (run c)) (setError (run_id (run c)) m JUndef (app s)))"
    using r by (auto simp: tracked_simps list_all_iff run_inv_def)
  ultimately show ?thesis by (simp add: core_inv_def)
qed


lemma not_finished_awaiting:
  assumes "pool_inv c p" "w < length (workers p)" "workers p ! w = Awaiting idx"
  shows "\<not> finished p"
proof
  assume "finished p"
  with assms(1) have "list_all (\<lambda>w. w = Exited) (workers p)" by (simp add: pool_inv_def)
  with assms(2) have "workers p ! w = Exited" by (simp add: list_all_length)
  with assms(3) show False by simp
qed

lemma reported_head_inv:
  assumes inv: "core_inv c s" and w: "w < length (workers (pool s))"
    and aw: "workers (pool s) ! w = Awaiting idx"
    and a1: "tracked (run_id (run c)) a1 = map g (tracked (run_id (run c)) (app s))"
    and g: "\<And>x. run_inv c (pool s) x \<Longrightarrow> \<not> finished (pool s) \<Longrightarrow>
              run_inv c ((pool s)\<lparr>reported := reported (pool s) @ [idx]\<rparr>) (g x)"
    and head: "worker_head c \<lparr>app = a1, pool = (pool s)\<lparr>reported := reported (pool s) @ [idx]\<rparr>\<rparr> = (s2, w')"
  shows "core_inv c (s2\<lparr>pool := (pool s2)\<lparr>workers := (workers (pool s2))[w := w']\<rparr>\<rparr>)"
proof -
  let ?rid = "run_id (run c)"
  let ?p1 = "(pool s)\<lparr>reported := reported (pool s) @ [idx]\<rparr>"
  from inv have p: "pool_inv c (pool s)"
    and r: "list_all (run_inv c (pool s)) (tracked ?rid (app s))"
    by (simp_all add: core_inv_def)
  have nf: "\<not> finished (pool s)" using not_finished_awaiting[OF p w aw] .
  have r1: "list_all (run_inv c ?p1) (tracked ?rid a1)"
    using r g nf by (auto simp: a1 list_all_iff)
  have ex: "mset (awaiting ((workers (pool s))[w := Exited])) + {#idx#} = mset (awaiting (workers (pool s)))"
    using awaiting_update_exit[OF w aw] .
  have nx: "\<And>j. mset (awaiting ((workers (pool s))[w := Awaiting j])) + {#idx#}
             = mset (awaiting (workers (pool s))) + {#j#}"
    using awaiting_update_next[OF w aw] .
  from head show ?thesis
  proof (cases rule: worker_head_cases)
    case stop
    have "pool_inv c (?p1\<lparr>workers := (workers (pool s))[w := Exited]\<rparr>)"
      using p ex[symmetric] stop(1) by (auto simp: pool_inv_def list_all_update dest: exited_update awaiting_update_set)
    moreover have "list_all (run_inv c (?p1\<lparr>workers := (workers (pool s))[w := Exited]\<rparr>)) (tracked ?rid a1)"
      using r1 by (auto simp: list_all_iff run_inv_def)
    ultimately show ?thesis using stop by (simp add: core_inv_def)
  next
    case (throw m)
    let ?p2 = "?p1\<lparr>cursor := cursor (pool s) + 1, dropped := dropped (pool s) @ [cursor (pool s)],
                  workers := (workers (pool s))[w := Exited]\<rparr>"
    have "pool_inv c ?p2"
      using p ex[symmetric] throw(1) by (auto simp: pool_inv_def list_all_update dest: awaiting_update_set)
    moreover have "list_all (run_inv c ?p2) (tracked ?rid (setError ?rid m JUndef a1))"
      using r1 by (auto simp: tracked_simps list_all_iff run_inv_def)
    ultimately show ?thesis using throw by (simp add: core_inv_def)
  next
    case (issue body)
    let ?p2 = "?p1\<lparr>cursor := cursor (pool s) + 1,
                  fetches := fetches (pool s) @ [(cursor (pool s), body)],
                  workers := (workers (pool s))[w := Awaiting (cursor (pool s))]\<rparr>"
    let ?ws' = "(workers (pool s))[w := Awaiting (cursor (pool s))]"
    let ?R = "mset (reported (pool s))" and ?D = "mset (dropped (pool s))"
    have B: "mset (awaiting (workers (pool s))) + ?R + ?D = mset [0..<cursor (pool s)]"
      using p by (simp add: pool_inv_def)
    have "mset (awaiting ?ws') + ?R + {#idx#} + ?D = (mset (awaiting ?ws') + {#idx#}) + ?R + ?D"
      by (simp add: ac_simps)
    also have "\<dots> = (mset (awaiting (workers (pool s))) + {#cursor (pool s)#}) + ?R + ?D"
      by (simp only: nx)
    also have "\<dots> = (mset (awaiting (workers (pool s))) + ?R + ?D) + {#cursor (pool s)#}"
      by (simp add: ac_simps)
    also have "\<dots> = mset [0..<cursor (pool s)] + {#cursor (pool s)#}"
      by (simp only: B)
    finally have "mset (awaiting ?ws') + ?R + {#idx#} + ?D = mset [0..<Suc (cursor (pool s))]"
      by simp
    then have "pool_inv c ?p2"
      using p issue(1) nf by (auto simp: pool_inv_def sorted_wrt_append upt_snoc simp del: upt_Suc dest: exited_update awaiting_update_set)
    moreover have "list_all (run_inv c ?p2) (tracked ?rid a1)"
      using r1 nf by (auto simp: list_all_iff run_inv_def)
    ultimately show ?thesis using issue by (simp add: core_inv_def)
  qed
qed


lemma resume_inv:
  assumes inv: "core_inv c s"
  shows "core_inv c (resume c w fr uuid s)"
proof (cases "w < length (workers (pool s))")
  case False
  then show ?thesis using inv by (simp add: resume_def)
next
  case w: True
  show ?thesis
  proof (cases "workers (pool s) ! w")
    case Exited
    then show ?thesis using inv w by (simp add: resume_def)
  next
    case aw: (Awaiting idx)
    let ?rid = "run_id (run c)"
    show ?thesis
    proof (cases fr)
      case (Rejected nm msg)
      then show ?thesis
        using rejected_inv[OF inv w aw] w aw by (simp add: resume_def Let_def)
    next
      case (Response ok js)
      show ?thesis
      proof (cases "nullish js")
        case True
        then show ?thesis
          using rejected_inv[OF inv w aw] w aw Response by (simp add: resume_def Let_def)
      next
        case nn: False
        define a1 where "a1 = (if \<not> ok
                           then incProgress ?rid
                                  (setError ?rid (js_or (get ''error'' js) (JStr ''Generation failed''))
                                     (js_coalesce (get ''debug'' js) JNull) (app s))
                           else incProgress ?rid
                                  (pushImage ?rid
                                     \<lparr>img_id = uuid, img_prompt = prompts (run c) ! idx,
                                      imageDataUrl = get ''imageDataUrl'' js\<rparr> (app s)))"
        obtain s2 w' where head:
          "worker_head c \<lparr>app = a1, pool = (pool s)\<lparr>reported := reported (pool s) @ [idx]\<rparr>\<rparr> = (s2, w')"
          by (cases "worker_head c \<lparr>app = a1, pool = (pool s)\<lparr>reported := reported (pool s) @ [idx]\<rparr>\<rparr>")
        have res: "resume c w fr uuid s = s2\<lparr>pool := (pool s2)\<lparr>workers := (workers (pool s2))[w := w']\<rparr>\<rparr>"
          using w aw Response head nn by (simp add: resume_def a1_def Let_def)
        show ?thesis
        proof (cases ok)
          case True
          let ?g = "\<lambda>r. (let imgs = images r @ [\<lparr>img_id = uuid, img_prompt = prompts (run c) ! idx,
                                      imageDataUrl = get ''imageDataUrl'' js\<rparr>] in
                    r\<lparr>images := imgs, activeIdx := (if length imgs = 1 then 0 else activeIdx r)\<rparr>)
                    \<lparr>progress_done := Suc (progress_done (let imgs = images r @ [\<lparr>img_id = uuid, img_prompt = prompts (run c) ! idx,
                                      imageDataUrl = get ''imageDataUrl'' js\<rparr>] in
                    r\<lparr>images := imgs, activeIdx := (if length imgs = 1 then 0 else activeIdx r)\<rparr>))\<rparr>"
          have t: "tracked ?rid a1 = map ?g (tracked ?rid (app s))"
            using True by (simp add: a1_def tracked_simps comp_def)
          have g: "\<And>x. run_inv c (pool s) x \<Longrightarrow> \<not> finished (pool s) \<Longrightarrow>
                run_inv c ((pool s)\<lparr>reported := reported (pool s) @ [idx]\<rparr>) (?g x)"
            by (auto simp: run_inv_def Let_def)
          show ?thesis unfolding res by (rule reported_head_inv[OF inv w aw t g head])
        next
          case False
          let ?g = "\<lambda>r. r\<lparr>status := Error, error := js_or (get ''error'' js) (JStr ''Generation failed''),
                           debug := js_coalesce (js_coalesce (get ''debug'' js) JNull) JNull,
                           progress_done := Suc (progress_done r)\<rparr>"
          have t: "tracked ?rid a1 = map ?g (tracked ?rid (app s))"
            using False by (simp add: a1_def tracked_simps comp_def)
          have g: "\<And>x. run_inv c (pool s) x \<Longrightarrow> \<not> finished (pool s) \<Longrightarrow>
                run_inv c ((pool s)\<lparr>reported := reported (pool s) @ [idx]\<rparr>) (?g x)"
            by (auto simp: run_inv_def Let_def)
          show ?thesis unfolding res by (rule reported_head_inv[OF inv w aw t g head])
        qed
      qed
    qed
  qed
qed

lemma worker_head_workers:
  "worker_head c s = (s', x) \<Longrightarrow> workers (pool s') = workers (pool s)"
  by (erule worker_head_cases) auto

lemma resume_workers_length:
  "length (workers (pool (resume c w fr uuid s))) = length (workers (pool s))"
  by (auto simp: resume_def Let_def split: worker.splits fetch_result.splits prod.splits
           dest!: worker_head_workers)

lemma finish_inv:
  assumes inv: "core_inv c s" and ne: "workers (pool s) \<noteq> []"
  shows "core_inv c (finish c s)"
proof (cases "list_all (\<lambda>w. w = Exited) (workers (pool s)) \<and> \<not> finished (pool s)")
  case False
  then show ?thesis using inv by (auto simp: finish_def)
next
  case True
  from inv have p: "pool_inv c (pool s)"
    and r: "list_all (run_inv c (pool s)) (tracked (run_id (run c)) (app s))"
    by (simp_all add: core_inv_def)
  from True ne have ex: "Exited \<in> set (workers (pool s))"
    by (cases "workers (pool s)") auto
  have "pool_inv c ((pool s)\<lparr>finished := True\<rparr>)"
    using p True by (auto simp: pool_inv_def)
  moreover have "list_all (run_inv c ((pool s)\<lparr>finished := True\<rparr>))
                   (tracked (run_id (run c)) (markDone (run_id (run c)) (app s)))"
    using r p ex by (auto simp: tracked_simps list_all_iff run_inv_def pool_inv_def)
  ultimately show ?thesis using True by (simp add: finish_def core_inv_def)
qed

lemma finish_workers: "workers (pool (finish c s)) = workers (pool s)"
  by (simp add: finish_def)

lemma run_inv_cancel: "run_inv c p x \<Longrightarrow> run_inv c p (x\<lparr>status := Cancelled\<rparr>)"
  by (simp add: run_inv_def)

lemma run_inv_select: "run_inv c p x \<Longrightarrow> run_inv c p (x\<lparr>selectedIdx := S\<rparr>)"
  by (simp add: run_inv_def)

lemma run_inv_activeIdx: "run_inv c p x \<Longrightarrow> run_inv c p (x\<lparr>activeIdx := k\<rparr>)"
  by (simp add: run_inv_def)

lemma step_inv:
  assumes inv: "core_inv c s" and ne: "workers (pool s) \<noteq> []"
    and fo: "foreign (run_id (run c)) e"
  shows "core_inv c (step c e s)"
proof (cases e)
  case (Resume w fr uuid)
  then show ?thesis using resume_inv[OF inv] by simp
next
  case Finish
  then show ?thesis using finish_inv[OF inv ne] by simp
next
  case (CancelRun rid)
  then show ?thesis using inv
    by (auto simp: core_inv_def tracked_cancelRun list_all_iff run_inv_cancel)
next
  case (DeleteRun rid)
  then show ?thesis using inv by (auto simp: core_inv_def tracked_deleteRun)
next
  case (ToggleSelect rid i)
  then show ?thesis using inv
    by (auto simp: core_inv_def tracked_simps list_all_iff run_inv_select)
next
  case (SetActive rid)
  then show ?thesis using inv by (auto simp: core_inv_def)
next
  case (SelectImage rid i)
  then show ?thesis using inv
    by (auto simp: core_inv_def tracked_simps list_all_iff run_inv_activeIdx)
next
  case (NewRun ui uuid now)
  with fo have "uuid \<noteq> run_id (run c)" by simp
  from tracked_newrun[OF this, of ui now "app s"] NewRun inv
  show ?thesis by (auto simp: core_inv_def)
next
  case (OtherPushImage rid img)
  then show ?thesis using inv fo by (auto simp: core_inv_def tracked_simps)
next
  case (OtherIncProgress rid)
  then show ?thesis using inv fo by (auto simp: core_inv_def tracked_simps)
next
  case (OtherSetError rid m d)
  then show ?thesis using inv fo by (auto simp: core_inv_def tracked_simps)
next
  case (OtherDone rid)
  then show ?thesis using inv fo by (auto simp: core_inv_def tracked_simps)
qed

lemma step_workers_length:
  "length (workers (pool (step c e s))) = length (workers (pool s))"
  by (cases e) (simp_all add: resume_workers_length finish_workers)

lemma exec_inv:
  assumes "core_inv c s" "workers (pool s) \<noteq> []" "list_all (foreign (run_id (run c))) evs"
  shows "core_inv c (exec c evs s) \<and> length (workers (pool (exec c evs s))) = length (workers (pool s))"
  using assms
proof (induction evs arbitrary: s)
  case Nil
  then show ?case by (simp add: exec_def)
next
  case (Cons e evs)
  have 1: "core_inv c (step c e s)" using Cons.prems by (auto intro: step_inv)
  have 2: "length (workers (pool (step c e s))) = length (workers (pool s))"
    by (rule step_workers_length)
  with Cons.prems have 3: "workers (pool (step c e s)) \<noteq> []" by auto
  from Cons.IH[OF 1 3] Cons.prems 2 show ?case by (simp add: exec_def)
qed


lemma spawn_one_inv:
  assumes inv: "core_inv c s" and nf: "\<not> finished (pool s)"
  shows "core_inv c (spawn_one c s) \<and> \<not> finished (pool (spawn_one c s)) \<and>
         length (workers (pool (spawn_one c s))) = Suc (length (workers (pool s)))"
proof -
  let ?rid = "run_id (run c)"
  from inv have p: "pool_inv c (pool s)"
    and r: "list_all (run_inv c (pool s)) (tracked ?rid (app s))"
    by (simp_all add: core_inv_def)
  obtain s' x where head: "worker_head c s = (s', x)" by (cases "worker_head c s")
  from head show ?thesis
  proof (cases rule: worker_head_cases)
    case stop
    have "pool_inv c ((pool s)\<lparr>workers := workers (pool s) @ [Exited]\<rparr>)"
      using p stop(1) nf by (auto simp: pool_inv_def)
    moreover have "list_all (run_inv c ((pool s)\<lparr>workers := workers (pool s) @ [Exited]\<rparr>)) (tracked ?rid (app s))"
      using r by (auto simp: list_all_iff run_inv_def)
    ultimately show ?thesis using stop head nf by (simp add: spawn_one_def core_inv_def)
  next
    case (throw m)
    let ?p2 = "(pool s)\<lparr>cursor := cursor (pool s) + 1, dropped := dropped (pool s) @ [cursor (pool s)],
                  workers := workers (pool s) @ [Exited]\<rparr>"
    have "pool_inv c ?p2"
      using p throw(1) nf by (auto simp: pool_inv_def)
    moreover have "list_all (run_inv c ?p2) (tracked ?rid (setError ?rid m JUndef (app s)))"
      using r by (auto simp: tracked_simps list_all_iff run_inv_def)
    ultimately show ?thesis using throw head nf by (simp add: spawn_one_def core_inv_def)
  next
    case (issue body)
    let ?p2 = "(pool s)\<lparr>cursor := cursor (pool s) + 1,
                  fetches := fetches (pool s) @ [(cursor (pool s), body)],
                  workers := workers (pool s) @ [Awaiting (cursor (pool s))]\<rparr>"
    have "pool_inv c ?p2"
      using p issue(1) nf by (auto simp: pool_inv_def sorted_wrt_append)
    moreover have "list_all (run_inv c ?p2) (tracked ?rid (app s))"
      using r nf by (auto simp: list_all_iff run_inv_def)
    ultimately show ?thesis using issue head nf by (simp add: spawn_one_def core_inv_def)
  qed
qed

lemma spawn_inv:
  assumes "core_inv c s" "\<not> finished (pool s)"
  shows "core_inv c ((spawn_one c ^^ n) s) \<and> \<not> finished (pool ((spawn_one c ^^ n) s)) \<and>
         length (workers (pool ((spawn_one c ^^ n) s))) = n + length (workers (pool s))"
  using assms
proof (induction n)
  case 0
  then show ?case by simp
next
  case (Suc n)
  from Suc.IH[OF Suc.prems] spawn_one_inv[of c "(spawn_one c ^^ n) s"]
  show ?case by simp
qed

lemma new_run_tracked:
  assumes start: "onGenerateNewRun ui uuid now st = (st1, Some r)"
    and fresh: "uuid \<notin> run_id ` set (runs st)"
  shows "tracked uuid st1 = [r]" "run_id r = uuid" "prompts r = promptLines ui"
    "status r = Running" "progress_done r = 0" "progress_total r = length (promptLines ui)"
    "images r = []" "speed r = ui_speed ui" "promptLines ui \<noteq> []"
proof -
  from fresh have "tracked uuid st = []"
    by (auto simp: tracked_def filter_empty_conv)
  with tracked_evict[of uuid st] have e: "tracked uuid (evict_oldest st) = []" by auto
  from start e show "tracked uuid st1 = [r]"
    by (auto simp: onGenerateNewRun_def Let_def tracked_def split: if_splits)
  from start show "run_id r = uuid" "prompts r = promptLines ui"
    "status r = Running" "progress_done r = 0" "progress_total r = length (promptLines ui)"
    "images r = []" "speed r = ui_speed ui" "promptLines ui \<noteq> []"
    by (auto simp: onGenerateNewRun_def Let_def split: if_splits)
qed

lemma runGenerator_inv:
  assumes start: "onGenerateNewRun ui uuid now st = (st1, Some r)"
    and fresh: "uuid \<notin> run_id ` set (runs st)"
    and clo: "run c = r"
  shows "core_inv c (runGenerator c st1)"
    and "length (workers (pool (runGenerator c st1))) = parallel r"
proof -
  note nr = new_run_tracked[OF start fresh]
  let ?s0 = "\<lparr>app = st1, pool = \<lparr>cursor = 0, workers = [], fetches = [], reported = [],
                dropped = [], finished = False\<rparr>\<rparr>"
  have "core_inv c ?s0"
    using nr clo by (simp add: core_inv_def pool_inv_def run_inv_def awaiting_def)
  moreover have "\<not> finished (pool ?s0)" by simp
  ultimately have "core_inv c ((spawn_one c ^^ parallel r) ?s0) \<and>
     \<not> finished (pool ((spawn_one c ^^ parallel r) ?s0)) \<and>
     length (workers (pool ((spawn_one c ^^ parallel r) ?s0))) = parallel r + length (workers (pool ?s0))"
    by (rule spawn_inv)
  then show "core_inv c (runGenerator c st1)"
    and "length (workers (pool (runGenerator c st1))) = parallel r"
    using clo by (simp_all add: runGenerator_def)
qed

lemma parallel_eq: "parallel r = min (max (speed r) 1) 3"
  by (simp add: parallel_def)

section \<open>Monotonicity of the pool and of a run's outcomes\<close>

lemma pool_grows_refl [simp]: "pool_grows p p"
  by (simp add: pool_grows_def)

lemma pool_grows_trans: "pool_grows p q \<Longrightarrow> pool_grows q r \<Longrightarrow> pool_grows p r"
  by (auto simp: pool_grows_def intro: prefix_order.trans)

lemma resume_grows: "pool_grows (pool s) (pool (resume c w fr uuid s))"
proof (cases "w < length (workers (pool s))")
  case False
  then show ?thesis by (simp add: resume_def)
next
  case w: True
  show ?thesis
  proof (cases "workers (pool s) ! w")
    case Exited
    then show ?thesis using w by (simp add: resume_def)
  next
    case aw: (Awaiting idx)
    show ?thesis
    proof (cases fr)
      case (Rejected nm msg)
      then show ?thesis using w aw
        by (auto simp: resume_def Let_def pool_grows_def nth_list_update)
    next
      case (Response ok js)
      show ?thesis
      proof (cases "nullish js")
        case True
        then show ?thesis using w aw Response
          by (auto simp: resume_def Let_def pool_grows_def nth_list_update)
      next
        case nn: False
        let ?rid = "run_id (run c)"
        define a1 where "a1 = (if \<not> ok
                           then incProgress ?rid
                                  (setError ?rid (js_or (get ''error'' js) (JStr ''Generation failed''))
                                     (js_coalesce (get ''debug'' js) JNull) (app s))
                           else incProgress ?rid
                                  (pushImage ?rid
                                     \<lparr>img_id = uuid, img_prompt = prompts (run c) ! idx,
                                      imageDataUrl = get ''imageDataUrl'' js\<rparr> (app s)))"
        obtain s2 w' where head:
          "worker_head c \<lparr>app = a1, pool = (pool s)\<lparr>reported := reported (pool s) @ [idx]\<rparr>\<rparr> = (s2, w')"
          by (cases "worker_head c \<lparr>app = a1, pool = (pool s)\<lparr>reported := reported (pool s) @ [idx]\<rparr>\<rparr>")
        have res: "resume c w fr uuid s = s2\<lparr>pool := (pool s2)\<lparr>workers := (workers (pool s2))[w := w']\<rparr>\<rparr>"
          using w aw Response head nn by (simp add: resume_def a1_def Let_def)
        from head show ?thesis unfolding res
          by (cases rule: worker_head_cases) (use w aw in \<open>auto simp: pool_grows_def nth_list_update\<close>)
      qed
    qed
  qed
qed

lemma step_grows: "pool_grows (pool s) (pool (step c e s))"
proof (cases e)
  case (Resume w fr uuid)
  then show ?thesis using resume_grows by simp
qed (simp_all add: finish_def pool_grows_def)

lemma exec_Cons: "exec c (e # evs) s = exec c evs (step c e s)"
  by (simp add: exec_def)

lemma exec_grows: "pool_grows (pool s) (pool (exec c evs s))"
proof (induction evs arbitrary: s)
  case Nil
  then show ?case by (simp add: exec_def)
next
  case (Cons e evs)
  have a: "pool_grows (pool s) (pool (step c e s))" by (rule step_grows)
  have b: "pool_grows (pool (step c e s)) (pool (exec c evs (step c e s)))" by (rule Cons.IH)
  show ?case using pool_grows_trans[OF a b] by (simp add: exec_Cons)
qed

lemma retains_refl [simp]: "retains xs xs"
  by (auto simp: retains_def)

lemma retains_Nil [simp]: "retains xs []"
  by (simp add: retains_def)

lemma retains_trans: "retains xs ys \<Longrightarrow> retains ys zs \<Longrightarrow> retains xs zs"
  unfolding retains_def by (meson prefix_order.trans le_trans)

lemma retains_map:
  assumes "\<And>x. prefix (images x) (images (g x)) \<and> progress_done x \<le> progress_done (g x)"
  shows "retains xs (map g xs)"
  using assms by (auto simp: retains_def)

lemma retains_setError: "retains (tracked rid a) (tracked rid (setError rid' m d a))"
  by (auto simp: tracked_simps intro!: retains_map)

lemma retains_incProgress: "retains (tracked rid a) (tracked rid (incProgress rid' a))"
  by (auto simp: tracked_simps intro!: retains_map)

lemma retains_pushImage: "retains (tracked rid a) (tracked rid (pushImage rid' img a))"
  by (auto simp: tracked_simps Let_def intro!: retains_map)

lemma retains_markDone: "retains (tracked rid a) (tracked rid (markDone rid' a))"
  by (auto simp: tracked_simps intro!: retains_map)

lemma retains_cancelRun: "retains (tracked rid a) (tracked rid (cancelRun rid' a))"
  by (auto simp: tracked_cancelRun intro!: retains_map)

lemma retains_toggleSelect: "retains (tracked rid a) (tracked rid (toggleSelect rid' i a))"
  by (auto simp: tracked_simps intro!: retains_map)

lemma retains_selectImage: "retains (tracked rid a) (tracked rid (selectImage rid' i a))"
  by (auto simp: tracked_simps intro!: retains_map)

lemma worker_head_retains:
  "worker_head c s = (s', x) \<Longrightarrow> retains (tracked rid (app s)) (tracked rid (app s'))"
  by (erule worker_head_cases) (auto simp: retains_setError)

lemma resume_retains: "retains (tracked rid (app s)) (tracked rid (app (resume c w fr uuid s)))"
proof -
  have 1: "\<And>a m d. retains (tracked rid (app s)) (tracked rid (incProgress r1 (setError r2 m d (app s))))" for r1 r2
    by (meson retains_trans retains_setError retains_incProgress)
  have 2: "\<And>img. retains (tracked rid (app s)) (tracked rid (incProgress r1 (pushImage r2 img (app s))))" for r1 r2
    by (meson retains_trans retains_pushImage retains_incProgress)
  show ?thesis
    by (auto simp: resume_def Let_def retains_setError split: worker.splits fetch_result.splits prod.splits
             dest!: worker_head_retains[where rid = rid] intro: retains_trans[OF 1] retains_trans[OF 2])
qed

lemma step_retains:
  assumes "foreign rid e"
  shows "retains (tracked rid (app s)) (tracked rid (app (step c e s)))"
proof (cases e)
  case (NewRun ui uuid now)
  with assms have "uuid \<noteq> rid" by simp
  from tracked_newrun[OF this, of ui now "app s"] NewRun show ?thesis by auto
qed (auto simp: resume_retains finish_def retains_markDone retains_cancelRun retains_toggleSelect
       retains_selectImage
       retains_pushImage retains_incProgress retains_setError tracked_deleteRun)

lemma exec_retains:
  assumes "list_all (foreign rid) evs"
  shows "retains (tracked rid (app s)) (tracked rid (app (exec c evs s)))"
  using assms
proof (induction evs arbitrary: s)
  case Nil
  then show ?case by (simp add: exec_def)
next
  case (Cons e evs)
  then have a: "retains (tracked rid (app s)) (tracked rid (app (step c e s)))"
    and b: "retains (tracked rid (app (step c e s))) (tracked rid (app (exec c evs (step c e s))))"
    by (auto intro: step_retains)
  show ?case using retains_trans[OF a b] by (simp add: exec_Cons)
qed


lemma dropped_not_elsewhere:
  assumes p: "pool_inv c p" and d: "idx \<in> set (dropped p)"
  shows "idx \<notin> set (reported p)" "idx \<notin> set (awaiting (workers p))"
    "length (reported p) < cursor p"
proof -
  let ?A = "mset (awaiting (workers p))" and ?R = "mset (reported p)" and ?D = "mset (dropped p)"
  from p have eq: "?A + ?R + ?D = mset [0..<cursor p]" by (simp add: pool_inv_def)
  have "count (mset [0..<cursor p]) idx \<le> 1"
    by (cases "idx < cursor p") simp_all
  with eq have le: "count ?A idx + count ?R idx + count ?D idx \<le> 1"
    by (metis count_union)
  from d have "0 < count ?D idx" by (simp only: count_greater_zero_iff set_mset_mset)
  with le have "count ?A idx = 0" "count ?R idx = 0" by linarith+
  then show "idx \<notin> set (reported p)" "idx \<notin> set (awaiting (workers p))"
    by (simp_all add: count_eq_zero_iff)
  from eq have "size ?A + size ?R + size ?D = cursor p"
    by (metis size_union size_mset length_upt diff_zero)
  moreover from d have "size ?D \<ge> 1" by (cases "dropped p") auto
  ultimately show "length (reported p) < cursor p" by simp
qed

section \<open>Status and registry size\<close>

lemma js_coalesce_idem [simp]: "js_coalesce (js_coalesce a JNull) JNull = js_coalesce a JNull"
  by (simp add: js_coalesce_def)

lemma terminal_updates [simp]:
  "terminal (x\<lparr>status := Error, error := m, debug := d\<rparr>)"
  "terminal (x\<lparr>status := Cancelled\<rparr>)"
  "terminal (x\<lparr>progress_done := n\<rparr>) = terminal x"
  "terminal (x\<lparr>images := im, activeIdx := k\<rparr>) = terminal x"
  "terminal (x\<lparr>selectedIdx := S\<rparr>) = terminal x"
  "terminal (x\<lparr>activeIdx := k\<rparr>) = terminal x"
  "terminal (x\<lparr>images := im\<rparr>) = terminal x"
  "terminal (x\<lparr>status := Done\<rparr>)"
  by (auto simp: terminal_def)

lemma terminal_setError: "list_all terminal (tracked rid (setError rid' m d a))" if "list_all terminal (tracked rid a)"
  using that by (auto simp: tracked_simps list_all_iff)

lemma terminal_incProgress: "list_all terminal (tracked rid (incProgress rid' a))" if "list_all terminal (tracked rid a)"
  using that by (auto simp: tracked_simps list_all_iff)

lemma terminal_pushImage: "list_all terminal (tracked rid (pushImage rid' img a))" if "list_all terminal (tracked rid a)"
  using that by (auto simp: tracked_simps list_all_iff Let_def)

lemma terminal_markDone: "list_all terminal (tracked rid (markDone rid' a))" if "list_all terminal (tracked rid a)"
  using that by (auto simp: tracked_simps list_all_iff)

lemma terminal_cancelRun: "list_all terminal (tracked rid (cancelRun rid' a))" if "list_all terminal (tracked rid a)"
  using that by (auto simp: tracked_cancelRun list_all_iff)

lemma terminal_toggleSelect: "list_all terminal (tracked rid (toggleSelect rid' i a))" if "list_all terminal (tracked rid a)"
  using that by (auto simp: tracked_simps list_all_iff)

lemma terminal_selectImage: "list_all terminal (tracked rid (selectImage rid' i a))" if "list_all terminal (tracked rid a)"
  using that by (auto simp: tracked_simps list_all_iff)

lemma terminal_worker_head:
  "worker_head c s = (s', x) \<Longrightarrow> list_all terminal (tracked rid (app s)) \<Longrightarrow>
   list_all terminal (tracked rid (app s'))"
  by (erule worker_head_cases) (auto simp: terminal_setError)

lemma terminal_resume:
  assumes "list_all terminal (tracked rid (app s))"
  shows "list_all terminal (tracked rid (app (resume c w fr uuid s)))"
  using assms
  by (auto simp: resume_def Let_def terminal_setError terminal_incProgress terminal_pushImage
           split: worker.splits fetch_result.splits prod.splits
           dest!: terminal_worker_head[where rid = rid])

lemma terminal_step:
  assumes "foreign rid e" "list_all terminal (tracked rid (app s))"
  shows "list_all terminal (tracked rid (app (step c e s)))"
proof (cases e)
  case (NewRun ui uuid now)
  with assms have "uuid \<noteq> rid" by simp
  from tracked_newrun[OF this, of ui now "app s"] NewRun assms(2) show ?thesis by auto
qed (use assms(2) in \<open>auto simp: terminal_resume finish_def terminal_markDone terminal_cancelRun
       terminal_toggleSelect terminal_selectImage terminal_pushImage terminal_incProgress terminal_setError
       tracked_deleteRun\<close>)


lemma sort_key_head:
  assumes "sort_key f xs = y # ys"
  shows "y \<in> set xs \<and> (\<forall>x\<in>set xs. f y \<le> f x)"
proof -
  have "set (sort_key f xs) = set xs" by simp
  with assms have s: "set xs = insert y (set ys)" by simp
  have "sorted (map f (sort_key f xs))" by (rule sorted_sort_key)
  with assms have "\<forall>x\<in>set ys. f y \<le> f x" by simp
  with s show ?thesis by auto
qed

lemma filter_neq_remove1:
  "distinct (map run_id xs) \<Longrightarrow> x \<in> set xs \<Longrightarrow>
   filter (\<lambda>r. run_id r \<noteq> run_id x) xs = remove1 x xs"
proof (induction xs)
  case Nil
  then show ?case by simp
next
  case (Cons a xs)
  show ?case
  proof (cases "a = x")
    case True
    with Cons.prems have "\<forall>r\<in>set xs. run_id r \<noteq> run_id x" by (auto simp: image_iff)
    with True show ?thesis by (simp add: filter_id_conv)
  next
    case False
    with Cons.prems have "x \<in> set xs" "run_id a \<noteq> run_id x" by force+
    with Cons False show ?thesis by simp
  qed
qed

lemma runs_map_run_length [simp]: "length (runs (map_run rid f st)) = length (runs st)"
  by (simp add: map_run_def)

lemma worker_head_runs_length:
  "worker_head c s = (s', x) \<Longrightarrow> length (runs (app s')) = length (runs (app s))"
  by (erule worker_head_cases) (auto simp: setError_def)

lemma resume_runs_length: "length (runs (app (resume c w fr u s))) = length (runs (app s))"
  by (auto simp: resume_def Let_def setError_def incProgress_def pushImage_def
           split: worker.splits fetch_result.splits prod.splits dest!: worker_head_runs_length)

lemma evict_length:
  "length (runs (evict_oldest st)) \<le> length (runs st)"
  "3 \<le> length (runs st) \<Longrightarrow> length (runs (evict_oldest st)) < length (runs st)"
proof -
  show "length (runs (evict_oldest st)) \<le> length (runs st)"
    by (auto simp: evict_oldest_def Let_def split: list.splits)
  assume 3: "3 \<le> length (runs st)"
  then obtain y ys where sk: "sort_key startedAt (runs st) = y # ys"
    by (cases "sort_key startedAt (runs st)") (auto dest: arg_cong[where f = length])
  from sort_key_head[OF sk] have "y \<in> set (runs st)" by simp
  then have "length (filter (\<lambda>r. run_id r \<noteq> run_id y) (runs st)) < length (runs st)"
    by (intro length_filter_less[of y]) auto
  with 3 sk show "length (runs (evict_oldest st)) < length (runs st)"
    by (simp add: evict_oldest_def Let_def)
qed

lemma newrun_bound:
  assumes "length (runs st) \<le> 3"
  shows "length (runs (fst (onGenerateNewRun ui uuid now st))) \<le> 3"
proof (cases "length (runs st) < 3")
  case True
  with evict_length(1)[of st] show ?thesis by (auto simp: onGenerateNewRun_def Let_def)
next
  case False
  with assms have "3 \<le> length (runs st)" by simp
  from evict_length(2)[OF this] assms show ?thesis by (auto simp: onGenerateNewRun_def Let_def)
qed

lemma step_runs_bound:
  assumes "length (runs (app s)) \<le> 3"
  shows "length (runs (app (step c e s))) \<le> 3"
proof (cases e)
  case (DeleteRun rid)
  have "length (filter (\<lambda>r. run_id r \<noteq> rid) (runs (app s))) \<le> length (runs (app s))" by simp
  with assms have "length (filter (\<lambda>r. run_id r \<noteq> rid) (runs (app s))) \<le> 3" by linarith
  with DeleteRun show ?thesis by (auto simp: deleteRun_def Let_def)
qed (use assms in \<open>auto simp: resume_runs_length finish_def markDone_def cancelRun_def
       toggleSelect_def selectImage_def pushImage_def incProgress_def setError_def newrun_bound\<close>)

section \<open>Properties of the poll loop\<close>

lemmas route_eval = ex_env_def ex_env_pending_def ex_body_def ex_req_aborted_def KIE_BASE_def MAX_MS_def
  ok_def after_poll_def js_or_def js_coalesce_def error_response_def missing_def seedream_branch_def
  seedream_payload_def POST_def getReferenceUrl_def caught_def poll.simps poll_B.simps
  seedream_branch_B_def Let_def

lemma poll_B_eq: "poll_B env taskId elapsed k lastState = poll env taskId elapsed k lastState"
proof (induction env taskId elapsed k lastState rule: poll.induct)
  case (1 env taskId elapsed k lastState)
  show ?case
    apply (subst poll_B.simps)
    apply (subst poll.simps)
    using 1
    by (auto simp: error_response_def after_poll_def MAX_MS_def Let_def
             split: net_result.splits option.splits prod.splits)
qed

lemma poll_statuses:
  "fst (poll env taskId elapsed k ls) = Inr (Http st b) \<Longrightarrow> st = 200 \<or> st = 502 \<or> st = 504"
proof (induction env taskId elapsed k ls rule: poll.induct)
  case (1 env taskId elapsed k lastState)
  from "1.prems" show ?case
    apply (subst (asm) poll.simps)
    using "1.IH"
    by (auto simp: error_response_def after_poll_def Let_def
             split: if_splits net_result.splits option.splits prod.splits)
qed

lemma poll_fetches:
  "elapsed < MAX_MS \<Longrightarrow> list_ex is_status_fetch (snd (poll env taskId elapsed k ls))"
  by (subst poll.simps) (auto simp: Let_def split: net_result.splits option.splits prod.splits)

lemma poll_deadline:
  "MAX_MS \<le> elapsed \<Longrightarrow> poll env taskId elapsed k ls = (Inr (after_poll JNull ls), [])"
  by (subst poll.simps) simp

lemma getReferenceUrl_calls:
  "\<not> list_ex provider_call (snd (getReferenceUrl env pid custom))"
  by (auto simp: getReferenceUrl_def split: db_result.splits)


section \<open>Properties of the artifact extraction\<close>














lemma caught_fail [simp]:
  "\<not> success (caught m)" "truthy (failure_message (caught m))" "http_status (caught m) = 500"
  by (simp_all add: caught_def error_response_def ok_def)

lemma ok_200 [simp]: "ok 200" "\<not> ok 502"
  by (simp_all add: ok_def)






lemma truthy_data_url: "truthy (JStr (''data:'' @ s))"
  by simp











section \<open>The worker pool drains the batch exactly once\<close>

text \<open>
  Claim C3. A run is started by \<^verbatim>\<open>onGenerateNewRun\<close> with a fresh id on any registry,
  and its pool runs under any interleaving of its own workers' responses, its completion
  and the environment's events. If the registry then holds the run with status \<open>Done\<close>,
  its progress is complete (\<open>progress_done = progress_total\<close>, the batch length, which
  is at least 1), the outcomes reported are exactly one per prompt index
  (\<open>reported\<close> is a permutation of \<open>[0..<n]\<close>) with one image per outcome in arrival order,
  the requests were issued for the indices \<open>0, 1, ..., n - 1\<close> once each off the one shared
  cursor, and the pool spawned exactly \<open>min (max N 1) 3\<close> workers, for every speed \<open>N\<close>.
\<close>

theorem done_run_is_complete:
  assumes start: "onGenerateNewRun ui uuid now st = (st1, Some r)"
    and fresh: "uuid \<notin> run_id ` set (runs st)"
    and clo: "run c = r"
    and env: "list_all (foreign uuid) evs"
    and fin: "s = exec c evs (runGenerator c st1)"
    and x: "x \<in> set (runs (app s))" "run_id x = uuid" "status x = Done"
  shows "progress_done x = progress_total x \<and>
         progress_total x = length (promptLines ui) \<and>
         1 \<le> length (promptLines ui) \<and>
         mset (reported (pool s)) = mset [0..<length (promptLines ui)] \<and>
         map fst (fetches (pool s)) = [0..<length (promptLines ui)] \<and>
         map img_prompt (images x) = map (\<lambda>i. promptLines ui ! i) (reported (pool s)) \<and>
         length (workers (pool (runGenerator c st1))) = min (max (ui_speed ui) 1) 3 \<and>
         length (workers (pool s)) = min (max (ui_speed ui) 1) 3"
proof -
  note nr = new_run_tracked[OF start fresh]
  note g = runGenerator_inv[OF start fresh clo]
  have rid: "run_id (run c) = uuid" using clo nr by simp
  have n: "length (workers (pool (runGenerator c st1))) = min (max (ui_speed ui) 1) 3"
    using g(2) nr by (simp add: parallel_eq)
  then have ne: "workers (pool (runGenerator c st1)) \<noteq> []" by auto
  from exec_inv[OF g(1) ne] env rid fin
  have inv: "core_inv c s" and len: "length (workers (pool s)) = length (workers (pool (runGenerator c st1)))"
    by simp_all
  from x have "x \<in> set (tracked (run_id (run c)) (app s))" by (simp add: tracked_def rid)
  with inv have rx: "run_inv c (pool s) x" and p: "pool_inv c (pool s)"
    by (auto simp: core_inv_def list_all_iff)
  from rx x(3) have d: "dropped (pool s) = []" and f: "finished (pool s)"
    and cur: "cursor (pool s) = length (prompts (run c))"
    and im: "map img_prompt (images x) = map (\<lambda>i. prompts (run c) ! i) (reported (pool s))"
    and tot: "progress_total x = length (prompts (run c))"
    and dn: "progress_done x = length (reported (pool s))"
    by (simp_all add: run_inv_def)
  from p f have "awaiting (workers (pool s)) = []"
    by (simp add: pool_inv_def awaiting_all_exited)
  with p d cur have m: "mset (reported (pool s)) = mset [0..<length (prompts (run c))]"
    by (simp add: pool_inv_def)
  then have "length (reported (pool s)) = length (prompts (run c))"
    by (metis size_mset length_upt diff_zero)
  moreover from p d cur have "map fst (fetches (pool s)) = [0..<length (prompts (run c))]"
    by (simp add: pool_inv_def)
  ultimately show ?thesis
    using m im tot dn n len nr clo by (cases "promptLines ui") auto
qed

theorem done_run_is_complete_witness:
  "onGenerateNewRun ex_ui ''u1'' 100 ex_st0 = (ex_st1, Some ex_run) \<and>
   ''u1'' \<notin> run_id ` set (runs ex_st0) \<and>
   list_all (foreign ''u1'') ex_evs_ok \<and>
   ex_done \<in> set (runs (app (exec ex_c ex_evs_ok (runGenerator ex_c ex_st1)))) \<and>
   run_id ex_done = ''u1'' \<and> status ex_done = Done \<and>
   progress_done ex_done = progress_total ex_done \<and>
   progress_total ex_done = length (promptLines ex_ui) \<and>
   mset (reported (pool (exec ex_c ex_evs_ok (runGenerator ex_c ex_st1)))) = mset [0..<3] \<and>
   map fst (fetches (pool (exec ex_c ex_evs_ok (runGenerator ex_c ex_st1)))) = [0..<3] \<and>
   length (workers (pool (exec ex_c ex_evs_ok (runGenerator ex_c ex_st1)))) = 1"
proof -
  have a: "onGenerateNewRun ex_ui ''u1'' 100 ex_st0 = (ex_st1, Some ex_run)" by code_simp
  have b: "''u1'' \<notin> run_id ` set (runs ex_st0)" by (simp add: ex_st0_def)
  have c: "run ex_c = ex_run" by (simp add: ex_c_def)
  have d: "list_all (foreign ''u1'') ex_evs_ok" by code_simp
  have e: "ex_done \<in> set (runs (app (exec ex_c ex_evs_ok (runGenerator ex_c ex_st1))))"
    by code_simp
  have f: "run_id ex_done = ''u1''" by (simp add: ex_done_def ex_run_def)
  have g: "status ex_done = Done" by (simp add: ex_done_def)
  have n: "length (promptLines ex_ui) = 3" "ui_speed ex_ui = 1" by (simp_all add: ex_ui_def)
  from done_run_is_complete[OF a b c d refl e f g] a b d e f g n
  show ?thesis by simp
qed

section \<open>A request that throws drops its index\<close>

text \<open>
  Claim C9. In any reachable state of a started run, let worker \<open>w\<close> be waiting for the
  request of index \<open>idx\<close> and let that request throw (an abort or a transport error)
  instead of returning a response. Then the worker returns at once: no outcome is
  reported, the cursor and the requests issued are unchanged, and the run's progress and
  images are unchanged. Under every continuation the worker stays returned, the index is
  never reported and never in flight again, its request was issued exactly once (no index
  is ever requested twice), every registry entry of the run ends with
  \<open>progress_done < progress_total\<close> and fewer images than prompts, and the images and
  progress accumulated before the throw are retained.
\<close>

theorem thrown_request_is_dropped:
  assumes start: "onGenerateNewRun ui uuid now st = (st1, Some r)"
    and fresh: "uuid \<notin> run_id ` set (runs st)"
    and clo: "run c = r"
    and env1: "list_all (foreign uuid) evs"
    and s: "s = exec c evs (runGenerator c st1)"
    and w: "w < length (workers (pool s))"
    and aw: "workers (pool s) ! w = Awaiting idx"
    and s': "s' = step c (Resume w (Rejected nm msg) u) s"
    and env2: "list_all (foreign uuid) evs'"
    and s'': "s'' = exec c evs' s'"
  shows "workers (pool s') ! w = Exited \<and>
         reported (pool s') = reported (pool s) \<and>
         cursor (pool s') = cursor (pool s) \<and>
         fetches (pool s') = fetches (pool s) \<and>
         map progress_done (tracked uuid (app s')) = map progress_done (tracked uuid (app s)) \<and>
         map images (tracked uuid (app s')) = map images (tracked uuid (app s)) \<and>
         workers (pool s'') ! w = Exited \<and>
         idx \<notin> set (reported (pool s'')) \<and>
         idx \<notin> set (awaiting (workers (pool s''))) \<and>
         idx \<in> set (map fst (fetches (pool s''))) \<and>
         distinct (map fst (fetches (pool s''))) \<and>
         (\<forall>x\<in>set (tracked uuid (app s'')).
            progress_done x < progress_total x \<and> length (images x) < length (prompts r)) \<and>
         retains (tracked uuid (app s)) (tracked uuid (app s''))"
proof -
  note nr = new_run_tracked[OF start fresh]
  note g = runGenerator_inv[OF start fresh clo]
  have rid: "run_id (run c) = uuid" using clo nr by simp
  have ne0: "workers (pool (runGenerator c st1)) \<noteq> []"
    using g(2) by (auto simp: parallel_def)
  from exec_inv[OF g(1) ne0, of evs] env1 rid s
  have inv: "core_inv c s" by simp
  from w have ne: "workers (pool s) \<noteq> []" by auto
  have fo: "foreign (run_id (run c)) (Resume w (Rejected nm msg) u)" by simp
  have inv': "core_inv c s'" unfolding s' by (rule step_inv[OF inv ne fo])
  have "length (workers (pool s')) = length (workers (pool s))"
    unfolding s' by (rule step_workers_length)
  with ne have ne': "workers (pool s') \<noteq> []" by auto
  from exec_inv[OF inv' ne', of evs'] env2 rid s''
  have inv'': "core_inv c s''" by simp
  have ps': "pool s' = (pool s)\<lparr>workers := (workers (pool s))[w := Exited],
                               dropped := dropped (pool s) @ [idx]\<rparr>"
    and as': "app s' = setError uuid
                (JStr (if nm = ''AbortError'' then ''Run cancelled''
                       else if msg \<noteq> [] then msg else ''Request failed'')) JUndef (app s)"
    using w aw rid by (simp_all add: s' resume_def Let_def)
  have gr: "pool_grows (pool s') (pool s'')" unfolding s'' by (rule exec_grows)
  from ps' w have ex': "workers (pool s') ! w = Exited" and wl: "w < length (workers (pool s'))"
    by simp_all
  from gr ex' wl have ex'': "workers (pool s'') ! w = Exited" by (simp add: pool_grows_def)
  from gr ps' have "idx \<in> set (dropped (pool s''))"
    by (auto simp: pool_grows_def dest: set_mono_prefix)
  moreover from inv'' have p'': "pool_inv c (pool s'')" by (simp add: core_inv_def)
  ultimately have nowhere: "idx \<notin> set (reported (pool s''))" "idx \<notin> set (awaiting (workers (pool s'')))"
    and short: "length (reported (pool s'')) < cursor (pool s'')"
    by (auto dest: dropped_not_elsewhere)
  from inv have "pool_inv c (pool s)" by (simp add: core_inv_def)
  moreover from w aw have "idx \<in> set (awaiting (workers (pool s)))"
    by (force simp: awaiting_def in_set_conv_nth)
  ultimately have "idx \<in> set (map fst (fetches (pool s)))" by (simp add: pool_inv_def)
  with ps' gr have fetched: "idx \<in> set (map fst (fetches (pool s'')))"
    by (auto simp: pool_grows_def dest: set_mono_prefix)
  from p'' have dist: "distinct (map fst (fetches (pool s'')))"
    by (simp add: pool_inv_def strict_sorted_iff)
  have final: "\<forall>x\<in>set (tracked uuid (app s'')).
            progress_done x < progress_total x \<and> length (images x) < length (prompts r)"
  proof
    fix x assume "x \<in> set (tracked uuid (app s''))"
    with inv'' rid have "run_inv c (pool s'') x" by (auto simp: core_inv_def list_all_iff)
    with short p'' clo show "progress_done x < progress_total x \<and> length (images x) < length (prompts r)"
      by (auto simp: run_inv_def pool_inv_def)
  qed
  have "retains (tracked uuid (app s)) (tracked uuid (app s'))"
    unfolding as' by (rule retains_setError)
  moreover have "retains (tracked uuid (app s')) (tracked uuid (app s''))"
    unfolding s'' using env2 by (rule exec_retains)
  ultimately have ret: "retains (tracked uuid (app s)) (tracked uuid (app s''))"
    by (rule retains_trans)
  show ?thesis
    using ex' ex'' nowhere fetched dist final ret
    by (simp add: ps' as' tracked_simps comp_def)
qed

theorem thrown_request_is_dropped_witness:
  "onGenerateNewRun ex_ui ''u1'' 100 ex_st0 = (ex_st1, Some ex_run) \<and>
   ''u1'' \<notin> run_id ` set (runs ex_st0) \<and>
   list_all (foreign ''u1'') ex_evs_first \<and>
   workers (pool (exec ex_c ex_evs_first (runGenerator ex_c ex_st1))) ! 0 = Awaiting 1 \<and>
   list_all (foreign ''u1'') ex_evs_after \<and>
   1 \<notin> set (reported (pool (exec ex_c ex_evs_after
          (step ex_c (Resume 0 (Rejected ''TypeError'' ''Failed to fetch'') ''i2'')
             (exec ex_c ex_evs_first (runGenerator ex_c ex_st1)))))) \<and>
   map (\<lambda>x. (progress_total x, length (images x), length (prompts ex_run)))
     (tracked ''u1'' (app (exec ex_c ex_evs_after
          (step ex_c (Resume 0 (Rejected ''TypeError'' ''Failed to fetch'') ''i2'')
             (exec ex_c ex_evs_first (runGenerator ex_c ex_st1)))))) = [(3, 1, 3)] \<and>
   map progress_done (tracked ''u1'' (app (exec ex_c ex_evs_after
          (step ex_c (Resume 0 (Rejected ''TypeError'' ''Failed to fetch'') ''i2'')
             (exec ex_c ex_evs_first (runGenerator ex_c ex_st1)))))) = [1]"
proof -
  have a: "onGenerateNewRun ex_ui ''u1'' 100 ex_st0 = (ex_st1, Some ex_run)" by code_simp
  have b: "''u1'' \<notin> run_id ` set (runs ex_st0)" by (simp add: ex_st0_def)
  have c: "run ex_c = ex_run" by (simp add: ex_c_def)
  have d: "list_all (foreign ''u1'') ex_evs_first" by code_simp
  have e: "0 < length (workers (pool (exec ex_c ex_evs_first (runGenerator ex_c ex_st1))))"
    by code_simp
  have f: "workers (pool (exec ex_c ex_evs_first (runGenerator ex_c ex_st1))) ! 0 = Awaiting 1"
    by code_simp
  have g: "list_all (foreign ''u1'') ex_evs_after" by code_simp
  have h: "map progress_done (tracked ''u1'' (app (exec ex_c ex_evs_after
          (step ex_c (Resume 0 (Rejected ''TypeError'' ''Failed to fetch'') ''i2'')
             (exec ex_c ex_evs_first (runGenerator ex_c ex_st1)))))) = [1]"
    by code_simp
  have i: "map (\<lambda>x. (progress_total x, length (images x), length (prompts ex_run)))
     (tracked ''u1'' (app (exec ex_c ex_evs_after
          (step ex_c (Resume 0 (Rejected ''TypeError'' ''Failed to fetch'') ''i2'')
             (exec ex_c ex_evs_first (runGenerator ex_c ex_st1)))))) = [(3, 1, 3)]"
    by code_simp
  from thrown_request_is_dropped[OF a b c d refl e f refl g refl] a b d f g h i
  show ?thesis by simp
qed
section \<open>A provider failure for one prompt\<close>

text \<open>
  Claim C1, as stated, at a concrete input: a run is \<open>Running\<close> with its worker waiting
  for index 0; the generate route answers with a non-success response. The status of the
  run is then \<open>Error\<close>, not \<open>Running\<close>.
\<close>

theorem failure_keeps_running_counterexample:
  "map status (runs (app (runGenerator ex_c ex_st1))) = [Running] \<and>
   workers (pool (runGenerator ex_c ex_st1)) = [Awaiting 0] \<and>
   map status (runs (app (step ex_c (Resume 0 ex_fail ''i1'') (runGenerator ex_c ex_st1)))) = [Error]"
  by code_simp

text \<open>
  Claim C1, amended. When the request of a worker comes back with a non-success response,
  \<^verbatim>\<open>setError\<close> and \<^verbatim>\<open>incProgress\<close> run on the registry entry of the run: the message
  (\<^verbatim>\<open>json.error || "Generation failed"\<close>) and the diagnostic (\<^verbatim>\<open>json.debug ?? null\<close>)
  replace whatever was recorded before, the status becomes \<open>Error\<close> whatever it was,
  and \<open>progress_done\<close> grows by one. The outcome is reported for the claimed index, and the
  worker goes on: it claims the next index if one is left and returns otherwise; the
  other workers are not touched. (The model of the run is a known one, so that building the
  next request does not throw.) This is for a response body other than JSON \<^verbatim>\<open>null\<close>. On
  a \<^verbatim>\<open>null\<close> body the worker's read of \<^verbatim>\<open>json.error\<close> throws: the \<^verbatim>\<open>catch\<close> records
  the engine's message with status \<open>Error\<close>, progress is not incremented, no outcome is
  reported, and the worker returns without claiming anything more.
\<close>

theorem failure_outcome_recorded:
  assumes w: "w < length (workers (pool s))"
    and aw: "workers (pool s) ! w = Awaiting idx"
    and known: "getModelById (modelId (run c)) \<noteq> None"
    and s': "s' = step c (Resume w (Response False js) u) s"
  shows "(\<not> nullish js \<longrightarrow>
           runs (app s') =
             map (\<lambda>x. if run_id x \<noteq> run_id (run c) then x
                      else x\<lparr>status := Error,
                             error := js_or (get ''error'' js) (JStr ''Generation failed''),
                             debug := js_coalesce (get ''debug'' js) JNull,
                             progress_done := progress_done x + 1\<rparr>) (runs (app s)) \<and>
           reported (pool s') = reported (pool s) @ [idx] \<and>
           (cursor (pool s) < length (prompts (run c)) \<longrightarrow>
              workers (pool s') ! w = Awaiting (cursor (pool s)) \<and>
              cursor (pool s') = cursor (pool s) + 1) \<and>
           (length (prompts (run c)) \<le> cursor (pool s) \<longrightarrow>
              workers (pool s') ! w = Exited \<and> cursor (pool s') = cursor (pool s)) \<and>
           (\<forall>v<length (workers (pool s)). v \<noteq> w \<longrightarrow>
              workers (pool s') ! v = workers (pool s) ! v)) \<and>
         (nullish js \<longrightarrow>
           runs (app s') =
             map (\<lambda>x. if run_id x \<noteq> run_id (run c) then x
                      else x\<lparr>status := Error,
                             error := JStr (if null_read_message c \<noteq> [] then null_read_message c
                                            else ''Request failed''),
                             debug := JNull\<rparr>) (runs (app s)) \<and>
           reported (pool s') = reported (pool s) \<and>
           workers (pool s') ! w = Exited \<and>
           cursor (pool s') = cursor (pool s))"
proof (cases "nullish js")
  case True
  with w aw show ?thesis
    by (auto simp: s' resume_def Let_def setError_def map_run_def js_coalesce_def)
next
  case False
  with w aw known show ?thesis
    by (auto simp: s' resume_def worker_head_def request_body_def Let_def incProgress_def
          setError_def map_run_def)
qed

theorem failure_outcome_recorded_witness:
  "workers (pool (runGenerator ex_c ex_st1)) ! 0 = Awaiting 0 \<and>
   getModelById (modelId (run ex_c)) \<noteq> None \<and>
   map status (runs (app (step ex_c (Resume 0 ex_fail ''i1'') (runGenerator ex_c ex_st1)))) = [Error] \<and>
   map progress_done (runs (app (step ex_c (Resume 0 ex_fail ''i1'') (runGenerator ex_c ex_st1)))) = [1] \<and>
   workers (pool (step ex_c (Resume 0 ex_fail ''i1'') (runGenerator ex_c ex_st1))) ! 0 = Awaiting 1 \<and>
   map status (runs (app (step ex_c (Resume 0 (Response False JNull) ''i1'')
                            (runGenerator ex_c ex_st1)))) = [Error] \<and>
   map progress_done (runs (app (step ex_c (Resume 0 (Response False JNull) ''i1'')
                                   (runGenerator ex_c ex_st1)))) = [0] \<and>
   workers (pool (step ex_c (Resume 0 (Response False JNull) ''i1'') (runGenerator ex_c ex_st1))) ! 0 =
     Exited"
proof -
  have a: "0 < length (workers (pool (runGenerator ex_c ex_st1)))" by code_simp
  have b: "workers (pool (runGenerator ex_c ex_st1)) ! 0 = Awaiting 0" by code_simp
  have c: "getModelById (modelId (run ex_c)) \<noteq> None" by code_simp
  have d: "runs (app (runGenerator ex_c ex_st1)) = [ex_run]" by code_simp
  have e: "cursor (pool (runGenerator ex_c ex_st1)) = 1" by code_simp
  have f: "run ex_c = ex_run" by (simp add: ex_c_def)
  have g: "null_read_message ex_c \<noteq> []" by (simp add: ex_c_def)
  from failure_outcome_recorded[OF a b c, of _ "JObj [(''error'', JStr ''Gemini request failed (500)'')]" "''i1''"]
  have body: "map status (runs (app (step ex_c (Resume 0 ex_fail ''i1'') (runGenerator ex_c ex_st1)))) = [Error] \<and>
     map progress_done (runs (app (step ex_c (Resume 0 ex_fail ''i1'') (runGenerator ex_c ex_st1)))) = [1] \<and>
     workers (pool (step ex_c (Resume 0 ex_fail ''i1'') (runGenerator ex_c ex_st1))) ! 0 = Awaiting 1"
    by (simp add: d e f ex_fail_def ex_run_def)
  from failure_outcome_recorded[OF a b c, of _ JNull "''i1''"]
  have null: "map status (runs (app (step ex_c (Resume 0 (Response False JNull) ''i1'')
                            (runGenerator ex_c ex_st1)))) = [Error] \<and>
     map progress_done (runs (app (step ex_c (Resume 0 (Response False JNull) ''i1'')
                                   (runGenerator ex_c ex_st1)))) = [0] \<and>
     workers (pool (step ex_c (Resume 0 (Response False JNull) ''i1'') (runGenerator ex_c ex_st1))) ! 0 =
       Exited"
    by (simp add: d f g ex_run_def)
  from b c body null show ?thesis by blast
qed


section \<open>Terminal statuses\<close>

text \<open>
  Claim C2, as stated, at concrete inputs: cancelling a run that is \<open>Done\<close> makes it
  \<open>Cancelled\<close>; and a run that was cancelled while a request was in flight becomes
  \<open>Error\<close> when the aborted request throws.
\<close>

theorem terminal_status_latched_counterexample:
  "map status (runs (app (exec ex_c ex_evs_ok (runGenerator ex_c ex_st1)))) = [Done] \<and>
   map status (runs (app (step ex_c (CancelRun ''u1'')
                            (exec ex_c ex_evs_ok (runGenerator ex_c ex_st1))))) = [Cancelled] \<and>
   map status (runs (app (step ex_c (CancelRun ''u1'') (runGenerator ex_c ex_st1)))) = [Cancelled] \<and>
   map status (runs (app (step ex_c (Resume 0 (Rejected ''AbortError'' ''The user aborted a request.'') ''i1'')
                            (step ex_c (CancelRun ''u1'') (runGenerator ex_c ex_st1))))) = [Error]"
  by code_simp

text \<open>
  Claim C2, amended. Once every registry entry of a run has a terminal status (\<open>Done\<close>,
  \<open>Cancelled\<close> or \<open>Error\<close>), it has a terminal status after every further event: no
  operation returns a run to \<open>Running\<close>. The update at pool completion changes no entry
  whose status is not \<open>Running\<close>. \<^verbatim>\<open>cancelRun\<close> sets the status to \<open>Cancelled\<close>
  whatever it was before.
\<close>

theorem terminal_status_stays_terminal:
  assumes "foreign rid e" and "list_all terminal (tracked rid (app s))"
  shows "list_all terminal (tracked rid (app (step c e s))) \<and>
         length (runs (app (step c Finish s))) = length (runs (app s)) \<and>
         (\<forall>i<length (runs (app s)). status (runs (app s) ! i) \<noteq> Running \<longrightarrow>
              runs (app (step c Finish s)) ! i = runs (app s) ! i) \<and>
         map status (tracked rid (app (step c (CancelRun rid) s))) =
           map (\<lambda>x. Cancelled) (tracked rid (app s))"
  using terminal_step[OF assms]
  by (auto simp: finish_def markDone_def map_run_def tracked_cancelRun)

theorem terminal_status_stays_terminal_witness:
  "foreign ''u1'' Finish \<and>
   list_all terminal (tracked ''u1'' (app (step ex_c (CancelRun ''u1'') (runGenerator ex_c ex_st1)))) \<and>
   list_all terminal (tracked ''u1'' (app (step ex_c Finish
       (step ex_c (CancelRun ''u1'') (runGenerator ex_c ex_st1))))) \<and>
   map status (runs (app (step ex_c Finish
       (step ex_c (Resume 0 (Rejected ''AbortError'' ''The user aborted a request.'') ''i1'')
          (step ex_c (CancelRun ''u1'') (runGenerator ex_c ex_st1)))))) = [Error]"
proof -
  have a: "foreign ''u1'' Finish" by simp
  have b: "list_all terminal (tracked ''u1'' (app (step ex_c (CancelRun ''u1'') (runGenerator ex_c ex_st1))))"
    by code_simp
  have c: "map status (runs (app (step ex_c Finish
       (step ex_c (Resume 0 (Rejected ''AbortError'' ''The user aborted a request.'') ''i1'')
          (step ex_c (CancelRun ''u1'') (runGenerator ex_c ex_st1)))))) = [Error]"
    by code_simp
  from terminal_status_stays_terminal[OF a b, of ex_c] a b c show ?thesis by simp
qed
section \<open>Eviction at capacity\<close>

text \<open>
  Claim C5. With three runs registered under distinct ids, a submission that passes the
  precondition removes exactly one run, one whose \<^verbatim>\<open>startedAt\<close> is least, and sets the
  signal of that run's controller; the other two entries stay as they were, in their
  order, followed by the new run, and no other controller's signal changes. The registry
  then holds three runs, and no event of the system ever takes a registry of at most
  three runs above three.
\<close>

theorem fourth_run_evicts_oldest:
  assumes three: "length (runs st) = 3"
    and ids: "distinct (map run_id (runs st))"
    and start: "onGenerateNewRun ui uuid now st = (st', Some r)"
  shows "(\<exists>oldest\<in>set (runs st).
            (\<forall>x\<in>set (runs st). startedAt oldest \<le> startedAt x) \<and>
            runs st' = remove1 oldest (runs st) @ [r] \<and>
            (\<forall>k<length (controllers st).
               controllers st' ! k = (if controller oldest = Some k then True else controllers st ! k))) \<and>
         length (runs st') = 3 \<and>
         (\<forall>c e s. length (runs (app s)) \<le> 3 \<longrightarrow> length (runs (app (step c e s))) \<le> 3)"
proof -
  from three obtain y ys where sk: "sort_key startedAt (runs st) = y # ys"
    by (cases "sort_key startedAt (runs st)") (auto dest: arg_cong[where f = length])
  from sort_key_head[OF sk] have y: "y \<in> set (runs st)"
    and least: "\<forall>x\<in>set (runs st). startedAt y \<le> startedAt x" by simp_all
  have ev: "evict_oldest st = st\<lparr>runs := remove1 y (runs st),
                                 controllers := abort (controller y) (controllers st)\<rparr>"
    using three sk filter_neq_remove1[OF ids y] by (simp add: evict_oldest_def Let_def)
  from start ev have r1: "runs st' = remove1 y (runs st) @ [r]"
    and c1: "controllers st' = abort (controller y) (controllers st) @ [False]"
    by (auto simp: onGenerateNewRun_def Let_def split: if_splits)
  have "\<forall>k<length (controllers st).
               controllers st' ! k = (if controller y = Some k then True else controllers st ! k)"
    by (auto simp: c1 abort_def nth_append split: option.splits)
  moreover have "length (runs st') = 3" using r1 y three by (simp add: length_remove1)
  ultimately show ?thesis using y least r1 step_runs_bound by blast
qed

theorem fourth_run_evicts_oldest_witness:
  "length (runs ex_full) = 3 \<and> distinct (map run_id (runs ex_full)) \<and>
   map run_id (runs (fst (onGenerateNewRun ex_ui ''u1'' 100 ex_full))) = [''r1'', ''r3'', ''u1''] \<and>
   controllers (fst (onGenerateNewRun ex_ui ''u1'' 100 ex_full)) = [False, True, False, False] \<and>
   length (runs (fst (onGenerateNewRun ex_ui ''u1'' 100 ex_full))) = 3"
proof -
  have a: "length (runs ex_full) = 3" by code_simp
  have b: "distinct (map run_id (runs ex_full))" by code_simp
  have c: "onGenerateNewRun ex_ui ''u1'' 100 ex_full =
             (fst (onGenerateNewRun ex_ui ''u1'' 100 ex_full),
              Some (ex_run\<lparr>name := ''Run #2'', controller := Some 3\<rparr>))"
    by code_simp
  have d: "map run_id (runs (fst (onGenerateNewRun ex_ui ''u1'' 100 ex_full))) = [''r1'', ''r3'', ''u1'']"
    by code_simp
  have e: "controllers (fst (onGenerateNewRun ex_ui ''u1'' 100 ex_full)) = [False, True, False, False]"
    by code_simp
  from fourth_run_evicts_oldest[OF a b c] a b d e show ?thesis by simp
qed

section \<open>Deleting a running run\<close>

text \<open>
  Claim C6 at a concrete input: a run is \<open>Running\<close> with controller 0 and its worker is
  waiting for index 0. \<^verbatim>\<open>deleteRun\<close> removes the entry but leaves the signal of the
  controller unset; the worker is still waiting, and when its response arrives it claims
  index 1 and issues the next request. \<^verbatim>\<open>cancelRun\<close> on the same state does set the
  signal.
\<close>

theorem deleteRun_leaves_signal_unset:
  "map status (runs (app (runGenerator ex_c ex_st1))) = [Running] \<and>
   map controller (runs (app (runGenerator ex_c ex_st1))) = [Some 0] \<and>
   runs (app (step ex_c (DeleteRun ''u1'') (runGenerator ex_c ex_st1))) = [] \<and>
   controllers (app (step ex_c (DeleteRun ''u1'') (runGenerator ex_c ex_st1))) = [False] \<and>
   workers (pool (step ex_c (DeleteRun ''u1'') (runGenerator ex_c ex_st1))) = [Awaiting 0] \<and>
   map fst (fetches (pool (step ex_c (Resume 0 (ex_ok ''data:a'') ''i1'')
       (step ex_c (DeleteRun ''u1'') (runGenerator ex_c ex_st1))))) = [0, 1] \<and>
   controllers (app (step ex_c (CancelRun ''u1'') (runGenerator ex_c ex_st1))) = [True]"
  by code_simp
section \<open>The two variants of the Seedream branch\<close>

text \<open>
  Claim C10. For every environment (keys, provider answers, timing) and every prompt,
  option set and reference URL, the Seedream branch of the older route variant and that of
  the current one give the same result: the same response or thrown error, and the same
  outbound calls in the same order, hence the same \<^verbatim>\<open>createTask\<close> payload. Their poll loops
  agree from every loop state: once 180000 ms have elapsed they answer 504 with the last
  state, and on a successful status answer whose state is neither \<^verbatim>\<open>success\<close> nor
  \<^verbatim>\<open>fail\<close> they go round again, 2000 ms and the time of the request later.
\<close>

theorem seedream_variants_agree:
  "seedream_branch_B env prompt options refUrl = seedream_branch env prompt options refUrl \<and>
   poll_B env taskId elapsed k ls = poll env taskId elapsed k ls \<and>
   (180000 \<le> elapsed \<longrightarrow>
      poll_B env taskId elapsed k ls =
        (Inr (Http 504 (JObj [(''error'',
           JStr (''Seedream generation timed out (last state: '' @ js_toString ls @ '')''))])), [])) \<and>
   (elapsed < 180000 \<and>
    recordInfo env k (KIE_BASE env @ ''/api/v1/jobs/recordInfo?taskId=''
                        @ encodeURIComponent env (js_toString taskId)) = HttpResp st q \<and>
    ok st \<and> get ''code'' q = JNum 200 \<and>
    get ''state'' (get ''data'' q) \<noteq> JStr ''success'' \<and>
    get ''state'' (get ''data'' q) \<noteq> JStr ''fail'' \<longrightarrow>
      poll_B env taskId elapsed k ls =
        (case poll_B env taskId (elapsed + 2000 + poll_delay env k) (Suc k)
                (get ''state'' (get ''data'' q)) of
           (r, cs) \<Rightarrow>
             (r, RecordInfo (KIE_BASE env @ ''/api/v1/jobs/recordInfo?taskId=''
                               @ encodeURIComponent env (js_toString taskId)) # cs)))"
proof -
  have "seedream_branch_B env prompt options refUrl = seedream_branch env prompt options refUrl"
    by (simp add: seedream_branch_B_def seedream_branch_def seedream_payload_def error_response_def poll_B_eq
             Let_def split: net_result.splits)
  moreover have "180000 \<le> elapsed \<longrightarrow>
      poll_B env taskId elapsed k ls =
        (Inr (Http 504 (JObj [(''error'',
           JStr (''Seedream generation timed out (last state: '' @ js_toString ls @ '')''))])), [])"
    by (subst poll_B.simps) simp
  moreover have "elapsed < 180000 \<and>
    recordInfo env k (KIE_BASE env @ ''/api/v1/jobs/recordInfo?taskId=''
                        @ encodeURIComponent env (js_toString taskId)) = HttpResp st q \<and>
    ok st \<and> get ''code'' q = JNum 200 \<and>
    get ''state'' (get ''data'' q) \<noteq> JStr ''success'' \<and>
    get ''state'' (get ''data'' q) \<noteq> JStr ''fail'' \<longrightarrow>
      poll_B env taskId elapsed k ls =
        (case poll_B env taskId (elapsed + 2000 + poll_delay env k) (Suc k)
                (get ''state'' (get ''data'' q)) of
           (r, cs) \<Rightarrow>
             (r, RecordInfo (KIE_BASE env @ ''/api/v1/jobs/recordInfo?taskId=''
                               @ encodeURIComponent env (js_toString taskId)) # cs))"
    by (subst poll_B.simps) (simp add: Let_def)
  ultimately show ?thesis by (simp add: poll_B_eq)
qed

theorem seedream_variants_agree_witness:
  "seedream_branch_B ex_env_pending (JStr ''a'') JUndef (JStr ''https://cdn.example/ref.png'') =
     seedream_branch ex_env_pending (JStr ''a'') JUndef (JStr ''https://cdn.example/ref.png'') \<and>
   fst (seedream_branch ex_env_pending (JStr ''a'') JUndef (JStr ''https://cdn.example/ref.png'')) =
     Inr (Http 504 (JObj [(''error'',
           JStr ''Seedream generation timed out (last state: generating)'')])) \<and>
   length (snd (seedream_branch_B ex_env_pending (JStr ''a'') JUndef (JStr ''https://cdn.example/ref.png''))) = 4 \<and>
   poll_B ex_env_pending (JStr ''t1'') 180000 3 (JStr ''generating'') =
     (Inr (Http 504 (JObj [(''error'',
        JStr ''Seedream generation timed out (last state: generating)'')])), [])"
proof -
  have a: "fst (seedream_branch ex_env_pending (JStr ''a'') JUndef (JStr ''https://cdn.example/ref.png'')) =
     Inr (Http 504 (JObj [(''error'',
           JStr ''Seedream generation timed out (last state: generating)'')]))"
    by (simp add: route_eval)
  have b: "length (snd (seedream_branch ex_env_pending (JStr ''a'') JUndef (JStr ''https://cdn.example/ref.png''))) = 4"
    by (simp add: route_eval)
  from seedream_variants_agree[where env = ex_env_pending and prompt = "JStr ''a''" and options = JUndef
         and refUrl = "JStr ''https://cdn.example/ref.png''" and taskId = "JStr ''t1''"
         and elapsed = 180000 and k = 3 and ls = "JStr ''generating''"] a b
  show ?thesis by (simp add: route_eval)
qed

section \<open>Polling and cancellation\<close>

text \<open>
  Claim C4, as stated, at a concrete input: a Seedream request arrives with its
  cancellation signal already set. The handler creates the task, fetches the status once
  and answers 200 with the result URL; it does not answer with a failure
  \<^verbatim>\<open>cancelled\<close>, and it performs one status fetch, not zero.
\<close>

theorem poll_checks_cancellation_counterexample:
  "signal_aborted ex_req_aborted \<and>
   POST ex_env ex_req_aborted =
     (Http 200 (JObj [(''imageDataUrl'', JStr ''https://out.example/1.png'')]),
      [CreateTask (seedream_payload (JStr ''a'') JUndef (JStr ''https://cdn.example/ref.png'')),
       RecordInfo ''https://api.kie.ai/api/v1/jobs/recordInfo?taskId=t1'']) \<and>
   length (filter is_status_fetch (snd (POST ex_env ex_req_aborted))) = 1"
  by (simp add: route_eval)

text \<open>
  Claim C4, amended. The polling driver has no cancellation check: the handler's response
  and its outbound calls are the same whatever the state of the request's signal. Entered
  with less than 180000 ms elapsed, the loop always sleeps and performs a status fetch;
  entered later it answers the timeout without a fetch. It ends only with a thrown fetch
  error, a 502 (failed query, provider failure, malformed or empty result), the 200 of a
  success, or the 504 of the deadline.
\<close>

theorem polling_has_no_cancellation:
  "POST env (req\<lparr>signal_aborted := a\<rparr>) = POST env req \<and>
   (elapsed < MAX_MS \<longrightarrow> list_ex is_status_fetch (snd (poll env taskId elapsed k ls))) \<and>
   (MAX_MS \<le> elapsed \<longrightarrow> poll env taskId elapsed k ls = (Inr (after_poll JNull ls), [])) \<and>
   (\<forall>st b. fst (poll env taskId elapsed k ls) = Inr (Http st b) \<longrightarrow>
            st = 200 \<or> st = 502 \<or> st = 504)"
  using poll_statuses poll_fetches poll_deadline by (auto simp: POST_def)

theorem polling_has_no_cancellation_witness:
  "POST ex_env (ex_req_aborted\<lparr>signal_aborted := False\<rparr>) = POST ex_env ex_req_aborted \<and>
   0 < MAX_MS \<and>
   list_ex is_status_fetch (snd (poll ex_env (JStr ''t1'') 0 0 (JStr ''waiting''))) \<and>
   fst (poll ex_env (JStr ''t1'') 0 0 (JStr ''waiting'')) =
     Inr (Http 200 (JObj [(''imageDataUrl'', JStr ''https://out.example/1.png'')]))"
proof -
  have a: "(0::nat) < MAX_MS" by (simp add: MAX_MS_def)
  have b: "fst (poll ex_env (JStr ''t1'') 0 0 (JStr ''waiting'')) =
     Inr (Http 200 (JObj [(''imageDataUrl'', JStr ''https://out.example/1.png'')]))"
    by (simp add: route_eval)
  from polling_has_no_cancellation[where env = ex_env and req = ex_req_aborted and a = False
         and elapsed = 0 and taskId = "JStr ''t1''" and k = 0 and ls = "JStr ''waiting''"] a b
  show ?thesis by simp
qed
section \<open>Precondition failures\<close>

text \<open>
  Claim C7, as stated, at a concrete input: the page knows an image URL for the selected
  product, so \<^verbatim>\<open>onGenerateNewRun\<close> creates and registers a Run; the worker's request
  carries the product id, and the server cannot resolve it (the product table has no such
  row). The reference asset cannot be resolved, yet a Run has entered the state machine;
  the failure arrives as the 500 response of the request.
\<close>

theorem precondition_rejected_counterexample:
  "onGenerateNewRun ex_ui_product ''u1'' 100 ex_st0 =
     (ex_st1\<lparr>runs := [run ex_c_product]\<rparr>, Some (run ex_c_product)) \<and>
   request_body ex_c_product ''a'' = Some ex_body_product \<and>
   POST ex_env \<lparr>body = Inr ex_body_product, signal_aborted = False\<rparr> =
     (Http 500 (JObj [(''error'', JStr ''DB error: no rows returned'')]), [DbLookup (JStr ''p1'')])"
proof -
  have "onGenerateNewRun ex_ui_product ''u1'' 100 ex_st0 =
     (ex_st1\<lparr>runs := [run ex_c_product]\<rparr>, Some (run ex_c_product))"
    by code_simp
  moreover have "request_body ex_c_product ''a'' = Some ex_body_product"
    by code_simp
  moreover have "POST ex_env \<lparr>body = Inr ex_body_product, signal_aborted = False\<rparr> =
     (Http 500 (JObj [(''error'', JStr ''DB error: no rows returned'')]), [DbLookup (JStr ''p1'')])"
    by (simp add: route_eval ex_body_product_def)
  ultimately show ?thesis by simp
qed

text \<open>
  Claim C7, amended. On the page, an empty prompt batch or a missing or empty reference URL
  makes \<^verbatim>\<open>onGenerateNewRun\<close> return with the registry unchanged and no Run created (and
  so without any request); the function reports nothing to its caller. On the server, a
  request with a prompt and a model whose reference cannot be resolved by
  \<^verbatim>\<open>getReferenceUrl\<close> (neither custom URL nor product id, a lookup error, or an empty
  \<^verbatim>\<open>image_url\<close>) is answered from the handler's \<^verbatim>\<open>catch\<close> with status 500 and the
  thrown message, and no provider call has been made.
\<close>

theorem precondition_failures:
  "(promptLines ui = [] \<or> ui_referenceUrl ui = None \<or> ui_referenceUrl ui = Some [] \<longrightarrow>
      onGenerateNewRun ui uuid now st = (st, None)) \<and>
   (body req = Inr b \<and> truthy (get ''prompt'' b) \<and> truthy (get ''modelId'' b) \<and>
    fst (getReferenceUrl env (get ''productId'' b) (get ''customUrl'' b)) = Inl m \<longrightarrow>
      fst (POST env req) = caught m \<and> \<not> list_ex provider_call (snd (POST env req))) \<and>
   (\<not> truthy custom \<and> \<not> truthy pid \<longrightarrow>
      fst (getReferenceUrl env pid custom) = Inl ''Reference image URL required'') \<and>
   (\<not> truthy custom \<and> truthy pid \<and> db_product env pid = DbReply d e \<and> truthy e \<longrightarrow>
      fst (getReferenceUrl env pid custom) = Inl (''DB error: '' @ js_toString (get ''message'' e))) \<and>
   (\<not> truthy custom \<and> truthy pid \<and> db_product env pid = DbReply d e \<and> \<not> truthy e \<and>
    \<not> truthy (get ''image_url'' d) \<longrightarrow>
      fst (getReferenceUrl env pid custom) = Inl ''No image_url found for product'')"
proof -
  have 1: "promptLines ui = [] \<or> ui_referenceUrl ui = None \<or> ui_referenceUrl ui = Some [] \<longrightarrow>
      onGenerateNewRun ui uuid now st = (st, None)"
    by (auto simp: onGenerateNewRun_def)
  have 2: "body req = Inr b \<and> truthy (get ''prompt'' b) \<and> truthy (get ''modelId'' b) \<and>
    fst (getReferenceUrl env (get ''productId'' b) (get ''customUrl'' b)) = Inl m \<longrightarrow>
      fst (POST env req) = caught m \<and> \<not> list_ex provider_call (snd (POST env req))"
  proof (intro impI, elim conjE)
    assume b: "body req = Inr b" and p: "truthy (get ''prompt'' b)" and mi: "truthy (get ''modelId'' b)"
      and g: "fst (getReferenceUrl env (get ''productId'' b) (get ''customUrl'' b)) = Inl m"
    from p have nn: "\<not> nullish b" by (cases b) auto
    obtain cs where gr: "getReferenceUrl env (get ''productId'' b) (get ''customUrl'' b) = (Inl m, cs)"
      using g by (cases "getReferenceUrl env (get ''productId'' b) (get ''customUrl'' b)") auto
    from getReferenceUrl_calls[of env "get ''productId'' b" "get ''customUrl'' b"] gr
    have "\<not> list_ex provider_call cs" by simp
    with b p mi nn gr show "fst (POST env req) = caught m \<and> \<not> list_ex provider_call (snd (POST env req))"
      by (simp add: POST_def)
  qed
  have 3: "\<not> truthy custom \<and> \<not> truthy pid \<longrightarrow>
      fst (getReferenceUrl env pid custom) = Inl ''Reference image URL required''"
    by (simp add: getReferenceUrl_def)
  have 4: "\<not> truthy custom \<and> truthy pid \<and> db_product env pid = DbReply d e \<and> truthy e \<longrightarrow>
      fst (getReferenceUrl env pid custom) = Inl (''DB error: '' @ js_toString (get ''message'' e))"
    by (simp add: getReferenceUrl_def)
  have 5: "\<not> truthy custom \<and> truthy pid \<and> db_product env pid = DbReply d e \<and> \<not> truthy e \<and>
    \<not> truthy (get ''image_url'' d) \<longrightarrow>
      fst (getReferenceUrl env pid custom) = Inl ''No image_url found for product''"
    by (simp add: getReferenceUrl_def)
  from 1 2 3 4 5 show ?thesis by blast
qed

theorem precondition_failures_witness:
  "promptLines (ex_ui\<lparr>promptLines := []\<rparr>) = [] \<and>
   onGenerateNewRun (ex_ui\<lparr>promptLines := []\<rparr>) ''u1'' 100 ex_st0 = (ex_st0, None) \<and>
   truthy (get ''prompt'' ex_body_product) \<and> truthy (get ''modelId'' ex_body_product) \<and>
   fst (getReferenceUrl ex_env (get ''productId'' ex_body_product) (get ''customUrl'' ex_body_product))
     = Inl ''DB error: no rows returned'' \<and>
   fst (POST ex_env \<lparr>body = Inr ex_body_product, signal_aborted = False\<rparr>) =
     caught ''DB error: no rows returned'' \<and>
   \<not> list_ex provider_call (snd (POST ex_env \<lparr>body = Inr ex_body_product, signal_aborted = False\<rparr>))"
proof -
  have a: "promptLines (ex_ui\<lparr>promptLines := []\<rparr>) = []" by simp
  have b: "body \<lparr>body = Inr ex_body_product, signal_aborted = False\<rparr> = Inr ex_body_product" by simp
  have c: "truthy (get ''prompt'' ex_body_product)" "truthy (get ''modelId'' ex_body_product)"
    by (simp_all add: ex_body_product_def)
  have d: "fst (getReferenceUrl ex_env (get ''productId'' ex_body_product) (get ''customUrl'' ex_body_product))
     = Inl ''DB error: no rows returned''"
    by (simp add: route_eval ex_body_product_def)
  from precondition_failures[where ui = "ex_ui\<lparr>promptLines := []\<rparr>" and uuid = "''u1''" and now = 100
        and st = ex_st0 and req = "\<lparr>body = Inr ex_body_product, signal_aborted = False\<rparr>"
        and b = ex_body_product and env = ex_env and m = "''DB error: no rows returned''"]
    a b c d
  show ?thesis by simp
qed
section \<open>Artifact extraction on the synchronous path\<close>


end
